theory Spec2Isabelle
  imports Complex_Main "HOL-Library.AList" "HOL-Library.Multiset"
begin

section \<open>Voice registry: enrollment, profile store and identification\<close>

text \<open>
  A shallow embedding of \<^verbatim>\<open>voice-embedding-api/app.py\<close>.

  Conventions of the embedding.
  \<^item> Python floats and numpy arrays are modelled in exact arithmetic: a float is a
    \<^typ>\<open>real\<close>, an embedding a \<^typ>\<open>real list\<close>. Comparison, \<open>min\<close>, \<open>max\<close> and
    sorting are exact on floats as well; sums, quotients and square roots are rounded
    by the machine and exact here, so an equation between computed values below is an
    equation of the exact values.
  \<^item> An exception is a value of \<open>exn\<close>; a function that can raise returns
    \<open>exn + 'a\<close> with \<open>Inl\<close> for the exception.
  \<^item> The registry directory is an association list from file name to content, in
    the order \<open>os.listdir\<close> enumerates it. The directory itself exists:
    \<open>os.makedirs(REGISTRY_DIR, exist_ok=True)\<close> runs when the module is loaded.
  \<^item> \<open>uuid.uuid4()\<close> and \<open>time.time()\<close> are inputs (\<open>uid\<close>, \<open>now\<close>), the neural
    feature extractor behind \<open>extract_voice_embedding\<close> is a parameter \<open>extractor\<close>
    that may raise.
  \<^item> Python's \<open>str.lower\<close> is a parameter \<open>lower\<close>.
\<close>

subsection \<open>Configuration\<close>

definition IDENTIFICATION_THRESHOLD :: real where
  "IDENTIFICATION_THRESHOLD = 82 / 100"

definition REQUIRED_PHRASES :: nat where
  "REQUIRED_PHRASES = 5"

definition ENROLLMENT_PHRASES :: "string list" where
  "ENROLLMENT_PHRASES =
    [''The quick brown fox jumps over the lazy dog'',
     ''She sells seashells by the seashore'',
     ''How much wood would a woodchuck chuck if a woodchuck could chuck wood'',
     ''Peter Piper picked a peck of pickled peppers'',
     ''Red leather yellow leather'',
     ''The five boxing wizards jump quickly'',
     ''Pack my box with five dozen liquor jugs'',
     ''Sphinx of black quartz judge my vow'',
     ''How vexingly quick daft zebras jump'',
     ''Waltz bad nymph for quick jigs vex'',
     ''Please call Stella and ask her to bring these things with her from the store'',
     ''The birch canoe slid on the smooth planks'',
     ''Say the words below to complete voice setup'',
     ''My voice is stronger than passwords'',
     ''Ready to learn my voice'']"

subsection \<open>Exceptions\<close>

datatype exn =
    InconsistentVoiceSamples real
      \<comment> \<open>\<open>ValueError("Voice samples inconsistent. Min similarity: ...")\<close>, line 108\<close>
  | SklearnValueError
      \<comment> \<open>\<open>cosine_similarity\<close>: incompatible dimensions, or arrays with no feature\<close>
  | StatisticsError
      \<comment> \<open>\<open>statistics.mean\<close> of an empty list\<close>
  | IndexError
      \<comment> \<open>\<open>ENROLLMENT_PHRASES[i]\<close> out of range\<close>
  | EmptyMax
      \<comment> \<open>\<open>max\<close> of an empty sequence\<close>
  | EmbeddingExtractionFailed
      \<comment> \<open>whatever \<open>extract_voice_embedding\<close> re-raises\<close>
  | OSError
      \<comment> \<open>\<open>open\<close> or \<open>json.dump\<close> failing in \<open>save_voice_profile\<close>\<close>

subsection \<open>Vectors and cosine similarity\<close>

type_synonym vec = "real list"

definition dot :: "vec \<Rightarrow> vec \<Rightarrow> real" where
  "dot a b = sum_list (map2 (*) a b)"

text \<open>\<open>np.linalg.norm\<close> of a one-dimensional array.\<close>

definition l2_norm :: "vec \<Rightarrow> real" where
  "l2_norm v = sqrt (dot v v)"

text \<open>
  \<open>sklearn.preprocessing.normalize\<close> on one row: the row divided by its norm, a zero
  norm replaced by 1.
\<close>

definition sk_normalize :: "vec \<Rightarrow> vec" where
  "sk_normalize v = (let n = l2_norm v in map (\<lambda>x. x / (if n = 0 then 1 else n)) v)"

text \<open>
  \<open>cosine_similarity([a], [b])[0][0]\<close> of scikit-learn: both rows are normalized and
  multiplied. Rows of different lengths, or with no feature, raise \<open>ValueError\<close>.
\<close>

definition cosine :: "vec \<Rightarrow> vec \<Rightarrow> real" where
  "cosine a b = dot (sk_normalize a) (sk_normalize b)"

definition cosine_similarity :: "vec \<Rightarrow> vec \<Rightarrow> exn + real" where
  "cosine_similarity a b =
     (if length a = 0 \<or> length b = 0 \<or> length a \<noteq> length b then Inl SklearnValueError
      else Inr (cosine a b))"

subsection \<open>Voice profiles\<close>

record profile =
  user_id :: string
  user_name :: string
  voice_embedding :: vec
  phrase_embeddings :: "vec list"
  phrase_indices :: "int list"
  phrases_used :: "string list"
  consistency_score :: real
  min_consistency :: real
  enrollment_timestamp :: real
  embedding_dim :: nat

subsection \<open>create_voice_profile\<close>

text \<open>
  The inner loop \<open>for j in range(i + 1, len(embeddings))\<close> for a fixed \<open>i\<close>: the
  similarities of \<open>embeddings[i]\<close> to the embeddings after it.
\<close>

fun row_similarities :: "vec \<Rightarrow> vec list \<Rightarrow> exn + real list" where
  "row_similarities e [] = Inr []"
| "row_similarities e (x # xs) =
     (case cosine_similarity e x of
        Inl err \<Rightarrow> Inl err
      | Inr s \<Rightarrow>
          (case row_similarities e xs of
             Inl err \<Rightarrow> Inl err
           | Inr ss \<Rightarrow> Inr (s # ss)))"

text \<open>The outer loop \<open>for i in range(len(embeddings))\<close>.\<close>

fun pairwise_similarities :: "vec list \<Rightarrow> exn + real list" where
  "pairwise_similarities [] = Inr []"
| "pairwise_similarities (e # es) =
     (case row_similarities e es of
        Inl err \<Rightarrow> Inl err
      | Inr r \<Rightarrow>
          (case pairwise_similarities es of
             Inl err \<Rightarrow> Inl err
           | Inr rs \<Rightarrow> Inr (r @ rs)))"

text \<open>\<open>statistics.mean\<close>.\<close>

definition statistics_mean :: "real list \<Rightarrow> exn + real" where
  "statistics_mean xs =
     (if xs = [] then Inl StatisticsError else Inr (sum_list xs / real (length xs)))"

text \<open>
  \<open>np.mean(embeddings, axis=0)\<close>: the element-wise sum divided by the number of rows.
  It is reached only with at least two rows of one common length, since the pairwise
  loop and \<open>statistics.mean\<close> raised otherwise.
\<close>

definition vadd :: "vec \<Rightarrow> vec \<Rightarrow> vec" where
  "vadd a b = map2 (+) a b"

fun vsum :: "vec list \<Rightarrow> vec" where
  "vsum [] = []"
| "vsum [e] = e"
| "vsum (e # es) = vadd e (vsum es)"

definition np_mean_axis0 :: "vec list \<Rightarrow> vec" where
  "np_mean_axis0 es = map (\<lambda>x. x / real (length es)) (vsum es)"

text \<open>\<open>centroid / np.linalg.norm(centroid)\<close>.\<close>

definition l2_normalize :: "vec \<Rightarrow> vec" where
  "l2_normalize m = map (\<lambda>x. x / l2_norm m) m"

text \<open>Python list indexing: a negative index counts from the end.\<close>

definition py_index :: "'a list \<Rightarrow> int \<Rightarrow> exn + 'a" where
  "py_index xs i =
     (let n = int (length xs); j = (if i < 0 then n + i else i)
      in if 0 \<le> j \<and> j < n then Inr (xs ! nat j) else Inl IndexError)"

text \<open>\<open>[ENROLLMENT_PHRASES[i] for i in phrase_indices]\<close>.\<close>

fun lookup_phrases :: "int list \<Rightarrow> exn + string list" where
  "lookup_phrases [] = Inr []"
| "lookup_phrases (i # is) =
     (case py_index ENROLLMENT_PHRASES i of
        Inl err \<Rightarrow> Inl err
      | Inr s \<Rightarrow>
          (case lookup_phrases is of
             Inl err \<Rightarrow> Inl err
           | Inr ss \<Rightarrow> Inr (s # ss)))"

definition create_voice_profile ::
  "string \<Rightarrow> real \<Rightarrow> vec list \<Rightarrow> string \<Rightarrow> int list \<Rightarrow> exn + profile" where
  "create_voice_profile uid now embeddings name indices =
     (case pairwise_similarities embeddings of
        Inl err \<Rightarrow> Inl err
      | Inr similarities \<Rightarrow>
          (case statistics_mean similarities of
             Inl err \<Rightarrow> Inl err
           | Inr avg_consistency \<Rightarrow>
               (let min_c = min_list similarities in
                if min_c < 70 / 100 then Inl (InconsistentVoiceSamples min_c)
                else
                  (let centroid = l2_normalize (np_mean_axis0 embeddings) in
                   case lookup_phrases indices of
                     Inl err \<Rightarrow> Inl err
                   | Inr used \<Rightarrow>
                       Inr \<lparr>user_id = uid,
                            user_name = name,
                            voice_embedding = centroid,
                            phrase_embeddings = embeddings,
                            phrase_indices = indices,
                            phrases_used = used,
                            consistency_score = avg_consistency,
                            min_consistency = min_c,
                            enrollment_timestamp = now,
                            embedding_dim = length centroid\<rparr>))))"

subsection \<open>The registry directory\<close>

text \<open>
  A file of the registry holds either the JSON document of a profile, as
  \<open>json.dump\<close> wrote it, or content that \<open>open\<close> and \<open>json.load\<close> cannot turn into a
  document: an empty or truncated file, or bytes that are not JSON. A proper prefix of
  a dumped profile is never JSON (the closing brace of the object is its last
  character), so a partially written file is \<open>Unreadable\<close>.
\<close>

datatype content = Doc profile | Unreadable

type_synonym registry = "(string \<times> content) list"

definition path_exists :: "registry \<Rightarrow> string \<Rightarrow> bool" where
  "path_exists reg path = (map_of reg path \<noteq> None)"

definition write_file :: "string \<Rightarrow> content \<Rightarrow> registry \<Rightarrow> registry" where
  "write_file path c reg = AList.update path c reg"

definition remove_file :: "string \<Rightarrow> registry \<Rightarrow> registry" where
  "remove_file path reg = AList.delete path reg"

definition profile_path :: "string \<Rightarrow> string" where
  "profile_path uid = uid @ ''.json''"

definition endswith :: "string \<Rightarrow> string \<Rightarrow> bool" where
  "endswith s suf = (length suf \<le> length s \<and> drop (length s - length suf) s = suf)"

text \<open>
  \<open>save_voice_profile\<close> opens the file for writing, which creates or truncates it, and
  dumps the document into it. How the two calls end is an input: \<open>open\<close> may raise
  (nothing is written), \<open>json.dump\<close> may raise after \<open>open\<close> succeeded (the file holds
  a proper prefix of the document), or both complete.
\<close>

datatype io_outcome = OpenRaises | DumpRaises | WriteCompletes

definition save_voice_profile :: "io_outcome \<Rightarrow> profile \<Rightarrow> registry \<Rightarrow> (exn + string) \<times> registry" where
  "save_voice_profile io p reg =
     (let path = profile_path (user_id p) in
      case io of
        OpenRaises \<Rightarrow> (Inl OSError, reg)
      | DumpRaises \<Rightarrow> (Inl OSError, write_file path Unreadable reg)
      | WriteCompletes \<Rightarrow> (Inr path, write_file path (Doc p) reg))"

text \<open>
  \<open>load_all_profiles\<close> returns the profiles and, beside them, the file names of the
  lines it printed (\<open>Error loading profile ...\<close>), in order.
\<close>

fun load_all_profiles :: "registry \<Rightarrow> profile list \<times> string list" where
  "load_all_profiles [] = ([], [])"
| "load_all_profiles ((filename, c) # rest) =
     (let (profiles, printed) = load_all_profiles rest in
      if endswith filename ''.json'' then
        (case c of
           Doc p \<Rightarrow> (p # profiles, printed)
         | Unreadable \<Rightarrow> (profiles, filename # printed))
      else (profiles, printed))"

subsection \<open>identify_speaker\<close>

record score_entry =
  se_user_id :: string
  se_user_name :: string
  score :: real
  centroid_similarity :: real
  max_phrase_similarity :: real

text \<open>The loop over \<open>phrase_embeddings\<close>.\<close>

fun phrase_similarities :: "vec \<Rightarrow> vec list \<Rightarrow> exn + real list" where
  "phrase_similarities t [] = Inr []"
| "phrase_similarities t (e # es) =
     (case cosine_similarity t e of
        Inl err \<Rightarrow> Inl err
      | Inr s \<Rightarrow>
          (case phrase_similarities t es of
             Inl err \<Rightarrow> Inl err
           | Inr ss \<Rightarrow> Inr (s # ss)))"

text \<open>Python's \<open>max\<close> of a list.\<close>

definition py_max :: "real list \<Rightarrow> exn + real" where
  "py_max xs = (case xs of [] \<Rightarrow> Inl EmptyMax | x # ys \<Rightarrow> Inr (foldl max x ys))"

text \<open>The body of the loop over the profiles, up to the entry appended to \<open>all_scores\<close>.\<close>

definition score_profile :: "vec \<Rightarrow> profile \<Rightarrow> exn + score_entry" where
  "score_profile t p =
     (case cosine_similarity t (voice_embedding p) of
        Inl err \<Rightarrow> Inl err
      | Inr c_sim \<Rightarrow>
          (case phrase_similarities t (phrase_embeddings p) of
             Inl err \<Rightarrow> Inl err
           | Inr sims \<Rightarrow>
               (case py_max sims of
                  Inl err \<Rightarrow> Inl err
                | Inr max_phrase_sim \<Rightarrow>
                    Inr \<lparr>se_user_id = user_id p,
                         se_user_name = user_name p,
                         score = max c_sim max_phrase_sim,
                         centroid_similarity = c_sim,
                         max_phrase_similarity = max_phrase_sim\<rparr>)))"

text \<open>
  The loop over the profiles, with its three variables \<open>best_match\<close>, \<open>best_score\<close> and
  \<open>all_scores\<close> as the state.
\<close>

fun score_loop ::
  "vec \<Rightarrow> profile list \<Rightarrow> profile option \<times> real \<times> score_entry list \<Rightarrow>
   exn + (profile option \<times> real \<times> score_entry list)" where
  "score_loop t [] st = Inr st"
| "score_loop t (p # ps) (best_match, best_score, all_scores) =
     (case score_profile t p of
        Inl err \<Rightarrow> Inl err
      | Inr entry \<Rightarrow>
          (if score entry > best_score
           then score_loop t ps (Some p, score entry, all_scores @ [entry])
           else score_loop t ps (best_match, best_score, all_scores @ [entry])))"

text \<open>
  \<open>all_scores.sort(key=lambda x: x["score"], reverse=True)\<close>: a stable sort in
  descending order of the key, that is a stable ascending sort of the negated key.
\<close>

definition sort_scores :: "score_entry list \<Rightarrow> score_entry list" where
  "sort_scores xs = sort_key (\<lambda>x. - score x) xs"

text \<open>
  The third component of the result of \<open>identify_speaker\<close> is the list of scores, or
  the string \<open>"No profiles in registry"\<close>.
\<close>

datatype ranking = Scores "score_entry list" | Message string

definition identify_speaker ::
  "vec \<Rightarrow> real \<Rightarrow> registry \<Rightarrow> exn + (profile option \<times> real \<times> ranking)" where
  "identify_speaker t threshold reg =
     (let profiles = fst (load_all_profiles reg) in
      if profiles = [] then Inr (None, 0, Message ''No profiles in registry'')
      else
        (case score_loop t profiles (None, 0, []) of
           Inl err \<Rightarrow> Inl err
         | Inr (best_match, best_score, all_scores) \<Rightarrow>
             (if best_score \<ge> threshold
              then Inr (best_match, best_score, Scores (sort_scores all_scores))
              else Inr (None, best_score, Scores (sort_scores all_scores)))))"

subsection \<open>The endpoints\<close>

text \<open>The slice \<open>all_scores[:k]\<close>, of a list or of a string.\<close>

fun slice_to :: "nat \<Rightarrow> ranking \<Rightarrow> ranking" where
  "slice_to k (Scores xs) = Scores (take k xs)"
| "slice_to k (Message s) = Message (take k s)"

datatype identify_response =
    Identified string string real real ranking
      \<comment> \<open>\<open>user_id\<close>, \<open>user_name\<close>, \<open>confidence_score\<close>, \<open>enrollment_date\<close>, \<open>ranking\<close>\<close>
  | NotIdentified real ranking
      \<comment> \<open>\<open>best_score\<close>, \<open>ranking\<close>\<close>
  | IdentificationFailed exn
      \<comment> \<open>status 500\<close>

definition identify_voice :: "('a \<Rightarrow> exn + vec) \<Rightarrow> 'a \<Rightarrow> registry \<Rightarrow> identify_response" where
  "identify_voice extractor audio reg =
     (case extractor audio of
        Inl err \<Rightarrow> IdentificationFailed err
      | Inr t \<Rightarrow>
          (case identify_speaker t IDENTIFICATION_THRESHOLD reg of
             Inl err \<Rightarrow> IdentificationFailed err
           | Inr (m, s, all_scores) \<Rightarrow>
               (case m of
                  Some p \<Rightarrow>
                    Identified (user_id p) (user_name p) s (enrollment_timestamp p)
                      (slice_to 5 all_scores)
                | None \<Rightarrow> NotIdentified s (slice_to 3 all_scores))))"

text \<open>
  \<open>str.lower\<close> is Python's: it lowers every cased letter of Unicode. It is a
  parameter \<open>lower\<close> of \<open>register_voice\<close>, so what is proved of \<open>register_voice\<close>
  holds for whatever \<open>str.lower\<close> does. The examples need one concrete function:
  \<open>ascii_lower\<close> lowers the letters \<open>A\<close> to \<open>Z\<close>, and is what \<open>str.lower\<close> does on the
  ASCII names the examples use.
\<close>

definition ascii_lower_char :: "char \<Rightarrow> char" where
  "ascii_lower_char c =
     (let n = (of_char c :: nat) in if 65 \<le> n \<and> n \<le> 90 then char_of (n + 32) else c)"

definition ascii_lower :: "string \<Rightarrow> string" where
  "ascii_lower s = map ascii_lower_char s"

text \<open>The loop that extracts one embedding per uploaded file.\<close>

fun extract_all :: "('a \<Rightarrow> exn + vec) \<Rightarrow> 'a list \<Rightarrow> exn + vec list" where
  "extract_all extractor [] = Inr []"
| "extract_all extractor (a # as) =
     (case extractor a of
        Inl err \<Rightarrow> Inl err
      | Inr e \<Rightarrow>
          (case extract_all extractor as of
             Inl err \<Rightarrow> Inl err
           | Inr es \<Rightarrow> Inr (e # es)))"

datatype register_response =
    InvalidIndicesFormat
      \<comment> \<open>400, \<open>Invalid phrase indices format\<close>\<close>
  | CountMismatch nat nat
      \<comment> \<open>400, \<open>Number of audio files must match number of phrase indices\<close>\<close>
  | TooFewRecordings
      \<comment> \<open>400, \<open>Need at least 5 phrase recordings\<close>\<close>
  | InvalidPhraseIndices "int list"
      \<comment> \<open>400, \<open>Invalid phrase indices\<close>\<close>
  | AlreadyRegistered string
      \<comment> \<open>400, \<open>User name already registered\<close>\<close>
  | RegistrationFailed exn
      \<comment> \<open>500, \<open>Registration failed\<close>\<close>
  | Registered string string nat real
      \<comment> \<open>\<open>user_id\<close>, \<open>user_name\<close>, \<open>phrases_recorded\<close>, \<open>consistency_score\<close>\<close>

text \<open>
  \<open>register_voice\<close>. The form field \<open>phrase_indices\<close> arrives parsed: \<open>None\<close> when
  \<open>int(x.strip())\<close> raises \<open>ValueError\<close> on one of its comma-separated parts. The
  temporary files of the uploads are outside the registry and left out.
\<close>

definition register_voice ::
  "(string \<Rightarrow> string) \<Rightarrow> ('a \<Rightarrow> exn + vec) \<Rightarrow> string \<Rightarrow> real \<Rightarrow> io_outcome \<Rightarrow>
   string \<Rightarrow> int list option \<Rightarrow> 'a list \<Rightarrow> registry \<Rightarrow> register_response \<times> registry" where
  "register_voice lower extractor uid now io name parsed audios reg =
     (case parsed of
        None \<Rightarrow> (InvalidIndicesFormat, reg)
      | Some phrase_idx_list \<Rightarrow>
          if length audios \<noteq> length phrase_idx_list
          then (CountMismatch (length audios) (length phrase_idx_list), reg)
          else if length audios < REQUIRED_PHRASES then (TooFewRecordings, reg)
          else
            (let invalid_indices =
                   filter (\<lambda>i. i < 0 \<or> i \<ge> int (length ENROLLMENT_PHRASES)) phrase_idx_list in
             if invalid_indices \<noteq> [] then (InvalidPhraseIndices invalid_indices, reg)
             else
               (let existing_profiles = fst (load_all_profiles reg) in
                if list_ex (\<lambda>p. lower (user_name p) = lower name) existing_profiles
                then (AlreadyRegistered name, reg)
                else
                  (case extract_all extractor audios of
                     Inl err \<Rightarrow> (RegistrationFailed err, reg)
                   | Inr embeddings \<Rightarrow>
                       (case create_voice_profile uid now embeddings name phrase_idx_list of
                          Inl err \<Rightarrow> (RegistrationFailed err, reg)
                        | Inr p \<Rightarrow>
                            (case save_voice_profile io p reg of
                               (Inl err, reg') \<Rightarrow> (RegistrationFailed err, reg')
                             | (Inr path, reg') \<Rightarrow>
                                 (Registered (user_id p) (user_name p) (length embeddings)
                                    (consistency_score p), reg')))))))"

datatype delete_response =
    NotFound
      \<comment> \<open>404, \<open>Voice profile not found\<close>\<close>
  | Deleted string
      \<comment> \<open>\<open>Voice profile for user_name deleted successfully\<close>\<close>
  | DeleteFailed
      \<comment> \<open>500, \<open>Failed to delete voice profile\<close>\<close>

definition delete_voice :: "string \<Rightarrow> registry \<Rightarrow> delete_response \<times> registry" where
  "delete_voice uid reg =
     (let path = profile_path uid in
      if \<not> path_exists reg path then (NotFound, reg)
      else
        (case map_of reg path of
           Some (Doc p) \<Rightarrow> (Deleted (user_name p), remove_file path reg)
         | _ \<Rightarrow> (DeleteFailed, reg)))"

subsection \<open>Notions used in the statements\<close>

text \<open>
  The test of line 284: some loaded profile has the same name, both lowered.
\<close>

definition name_taken :: "(string \<Rightarrow> string) \<Rightarrow> string \<Rightarrow> registry \<Rightarrow> bool" where
  "name_taken lower name reg =
     list_ex (\<lambda>p. lower (user_name p) = lower name) (fst (load_all_profiles reg))"

text \<open>
  A request that passes the checks of lines 256 to 280: as many uploads as phrase
  indices, at least \<open>REQUIRED_PHRASES\<close> of them, and no index outside the catalogue.
\<close>

definition valid_request :: "int list \<Rightarrow> 'a list \<Rightarrow> bool" where
  "valid_request idx audios =
     (length audios = length idx \<and> REQUIRED_PHRASES \<le> length audios \<and>
      filter (\<lambda>i. i < 0 \<or> i \<ge> int (length ENROLLMENT_PHRASES)) idx = [])"

text \<open>
  Modelled from the spec: the store's \<open>get(user_id)\<close>, which \<^verbatim>\<open>app.py\<close> does not
  have (it reads profiles only through \<open>load_all_profiles\<close>). The spec: \<open>get\<close> fails
  with \<open>NotFound\<close> if the profile is absent, and an unreadable record is fatal for it.
\<close>

datatype get_error = GetNotFound | GetCorrupt

definition get_profile :: "string \<Rightarrow> registry \<Rightarrow> get_error + profile" where
  "get_profile uid reg =
     (case map_of reg (profile_path uid) of
        None \<Rightarrow> Inl GetNotFound
      | Some Unreadable \<Rightarrow> Inl GetCorrupt
      | Some (Doc p) \<Rightarrow> Inr p)"

subsection \<open>Example data\<close>

definition alice_profile :: profile where
  "alice_profile =
     \<lparr>user_id = ''u1'', user_name = ''Alice'', voice_embedding = [1, 0],
      phrase_embeddings = [[1, 0], [1, 0], [1, 0], [1, 0], [1, 0]],
      phrase_indices = [0, 1, 2, 3, 4], phrases_used = take 5 ENROLLMENT_PHRASES,
      consistency_score = 1, min_consistency = 1,
      enrollment_timestamp = 0, embedding_dim = 2\<rparr>"

definition only_alice :: registry where
  "only_alice = [(''u1.json'', Doc alice_profile)]"

definition alice_and_damaged :: registry where
  "alice_and_damaged =
     [(''u0.json'', Unreadable), (''u1.json'', Doc alice_profile), (''notes.txt'', Unreadable)]"

text \<open>
  The similarities the pairwise loop collects when no call raises: for each embedding,
  its cosine to every later one.
\<close>

fun pair_cosines :: "vec list \<Rightarrow> real list" where
  "pair_cosines [] = []"
| "pair_cosines (e # es) = map (cosine e) es @ pair_cosines es"

definition one_outlier :: "vec list" where
  "one_outlier = [[0, 1], [1, 0], [1, 0], [1, 0], [1, 0]]"

definition outlier_first :: "nat \<Rightarrow> exn + vec" where
  "outlier_first a = Inr (if a = 0 then [0, 1] else [1, 0])"

subsection \<open>Scores, as the spec words them\<close>

text \<open>
  The score as the spec words it: the larger of the cosine to the centroid and the
  largest cosine to a phrase embedding.
\<close>

definition spec_score :: "vec \<Rightarrow> profile \<Rightarrow> real" where
  "spec_score t p =
     max (cosine t (voice_embedding p)) (Max (cosine t ` set (phrase_embeddings p)))"

text \<open>
  A profile the probe can be compared with: centroid and phrase embeddings have the
  probe's dimension, which is not zero, and there is at least one phrase embedding.
  \<open>cosine_similarity\<close> or \<open>max\<close> raise otherwise.
\<close>

definition comparable :: "vec \<Rightarrow> profile \<Rightarrow> bool" where
  "comparable t p =
     (0 < length t \<and> length (voice_embedding p) = length t \<and> phrase_embeddings p \<noteq> [] \<and>
      list_all (\<lambda>e. length e = length t) (phrase_embeddings p))"

text \<open>The entry of \<open>all_scores\<close> for a profile, and the largest score of a list of profiles.\<close>

definition entry_of :: "vec \<Rightarrow> profile \<Rightarrow> score_entry" where
  "entry_of t p =
     \<lparr>se_user_id = user_id p,
      se_user_name = user_name p,
      score = spec_score t p,
      centroid_similarity = cosine t (voice_embedding p),
      max_phrase_similarity = Max (cosine t ` set (phrase_embeddings p))\<rparr>"

definition best_of :: "vec \<Rightarrow> profile list \<Rightarrow> real" where
  "best_of t ps = Max (spec_score t ` set ps)"

subsection \<open>More example data\<close>

text \<open>
  The profile of a speaker whose five enrollment embeddings are one unit vector \<open>v\<close>,
  as \<open>create_voice_profile\<close> builds it.
\<close>

definition mk_profile :: "string \<Rightarrow> string \<Rightarrow> vec \<Rightarrow> profile" where
  "mk_profile uid name v =
     \<lparr>user_id = uid, user_name = name, voice_embedding = v,
      phrase_embeddings = [v, v, v, v, v],
      phrase_indices = [0, 1, 2, 3, 4], phrases_used = take 5 ENROLLMENT_PHRASES,
      consistency_score = 1, min_consistency = 1, enrollment_timestamp = 0,
      embedding_dim = length v\<rparr>"

definition bob_profile :: profile where
  "bob_profile = mk_profile ''u2'' ''Bob'' [0, 1]"

definition carol_profile :: profile where
  "carol_profile = mk_profile ''u3'' ''Carol'' [3 / 5, 4 / 5]"

definition dave_profile :: profile where
  "dave_profile = mk_profile ''u4'' ''Dave'' [1, 0]"

definition erin_profile :: profile where
  "erin_profile = mk_profile ''u5'' ''Erin'' [- 1, 0]"

definition three_voices :: registry where
  "three_voices = [(''u2.json'', Doc bob_profile), (''u3.json'', Doc carol_profile), (''u4.json'', Doc dave_profile)]"

definition two_voices :: registry where
  "two_voices = [(''u2.json'', Doc bob_profile), (''u3.json'', Doc carol_profile)]"

definition opposite_voice :: registry where
  "opposite_voice = [(''u5.json'', Doc erin_profile)]"

subsection \<open>The centroid, as the spec words it\<close>

text \<open>
  The element-wise arithmetic mean of the embeddings, and that mean divided by its
  L2 norm.
\<close>

definition elementwise_mean :: "vec list \<Rightarrow> vec" where
  "elementwise_mean es =
     map (\<lambda>k. (\<Sum>e\<leftarrow>es. e ! k) / real (length es)) [0..<length (hd es)]"

definition spec_centroid :: "vec list \<Rightarrow> vec" where
  "spec_centroid es =
     (let m = elementwise_mean es in map (\<lambda>x. x / sqrt (\<Sum>x\<leftarrow>m. x\<^sup>2)) m)"

subsection \<open>More notions used in the statements\<close>

text \<open>The check of lines 271 to 274 on the phrase indices.\<close>

definition valid_indices :: "int list \<Rightarrow> bool" where
  "valid_indices idx = (filter (\<lambda>i. i < 0 \<or> i \<ge> int (length ENROLLMENT_PHRASES)) idx = [])"

text \<open>Batches for the examples: two unit vectors, and five vectors of norm 2.\<close>

definition near_pair :: "vec list" where
  "near_pair = [[3 / 5, 4 / 5], [4 / 5, 3 / 5]]"

definition loud_batch :: "vec list" where
  "loud_batch = [[2, 0], [2, 0], [2, 0], [2, 0], [2, 0]]"

definition loud :: "nat \<Rightarrow> exn + vec" where
  "loud a = Inr [2, 0]"


text \<open>The profile that \<open>create_voice_profile\<close> builds from the five vectors of norm 2.\<close>

definition frank_profile :: profile where
  "frank_profile =
     \<lparr>user_id = ''u6'', user_name = ''Frank'', voice_embedding = [1, 0],
      phrase_embeddings = loud_batch, phrase_indices = [0, 1, 2, 3, 4],
      phrases_used = take 5 ENROLLMENT_PHRASES,
      consistency_score = 1, min_consistency = 1, enrollment_timestamp = 0,
      embedding_dim = 2\<rparr>"

section \<open>Properties\<close>

subsection \<open>The registry\<close>

lemma map_of_remove_file: "map_of (remove_file path reg) = (map_of reg)(path := None)"
  by (simp add: remove_file_def delete_conv')

lemma not_exists_remove: "\<not> path_exists (remove_file path reg) path"
  by (simp add: path_exists_def map_of_remove_file)

lemma load_fst:
  "fst (load_all_profiles reg) =
     concat (map (\<lambda>fc. case snd fc of Doc p \<Rightarrow> [p] | Unreadable \<Rightarrow> [])
       (filter (\<lambda>fc. endswith (fst fc) ''.json'') reg))"
  by (induction reg rule: load_all_profiles.induct)
    (simp_all add: case_prod_beta split: content.splits)

lemma load_snd:
  "snd (load_all_profiles reg) =
     map fst (filter (\<lambda>fc. endswith (fst fc) ''.json'' \<and> snd fc = Unreadable) reg)"
  by (induction reg rule: load_all_profiles.induct)
    (simp_all add: case_prod_beta split: content.splits)

lemma load_filter:
  "load_all_profiles (filter (\<lambda>fc. snd fc \<noteq> Unreadable) reg) = (fst (load_all_profiles reg), [])"
  by (induction reg rule: load_all_profiles.induct)
    (simp_all add: case_prod_beta split: content.splits)

lemma identify_filter:
  "identify_speaker t th (filter (\<lambda>fc. snd fc \<noteq> Unreadable) reg) = identify_speaker t th reg"
  by (simp add: identify_speaker_def load_filter)

subsection \<open>delete_voice\<close>

lemma delete_unreadable:
  assumes "map_of reg (profile_path uid) = Some Unreadable"
  shows "delete_voice uid reg = (DeleteFailed, reg)"
  using assms by (simp add: delete_voice_def path_exists_def)

lemma delete_absent:
  assumes "\<not> path_exists reg (profile_path uid)"
  shows "delete_voice uid reg = (NotFound, reg)"
  using assms by (simp add: delete_voice_def)

lemma delete_doc:
  assumes "map_of reg (profile_path uid) = Some (Doc p)"
  shows "delete_voice uid reg = (Deleted (user_name p), remove_file (profile_path uid) reg)"
  using assms by (simp add: delete_voice_def path_exists_def)

subsection \<open>register_voice, case by case\<close>

lemma register_unparsed:
  "register_voice lower extractor uid now io name None audios reg = (InvalidIndicesFormat, reg)"
  by (simp add: register_voice_def)

lemma register_invalid_request:
  assumes "\<not> valid_request idx audios"
  shows "register_voice lower extractor uid now io name (Some idx) audios reg =
     (if length audios \<noteq> length idx then CountMismatch (length audios) (length idx)
      else if length audios < REQUIRED_PHRASES then TooFewRecordings
      else InvalidPhraseIndices
             (filter (\<lambda>i. i < 0 \<or> i \<ge> int (length ENROLLMENT_PHRASES)) idx), reg)"
  using assms by (auto simp add: register_voice_def valid_request_def Let_def)

lemma register_valid_request:
  assumes "valid_request idx audios"
  shows "register_voice lower extractor uid now io name (Some idx) audios reg =
     (if name_taken lower name reg then (AlreadyRegistered name, reg)
      else
        (case extract_all extractor audios of
           Inl err \<Rightarrow> (RegistrationFailed err, reg)
         | Inr embeddings \<Rightarrow>
             (case create_voice_profile uid now embeddings name idx of
                Inl err \<Rightarrow> (RegistrationFailed err, reg)
              | Inr p \<Rightarrow>
                  (case save_voice_profile io p reg of
                     (Inl err, reg') \<Rightarrow> (RegistrationFailed err, reg')
                   | (Inr path, reg') \<Rightarrow>
                       (Registered (user_id p) (user_name p) (length embeddings)
                          (consistency_score p), reg')))))"
  using assms by (simp add: register_voice_def name_taken_def valid_request_def)

lemma register_duplicate:
  assumes "name_taken lower name reg"
  shows "snd (register_voice lower extractor uid now io name parsed audios reg) = reg" (is ?A)
    and "\<forall>a b c d. fst (register_voice lower extractor uid now io name parsed audios reg)
           \<noteq> Registered a b c d" (is ?B)
proof -
  have "?A \<and> ?B"
  proof (cases parsed)
    case None
    then show ?thesis by (simp add: register_unparsed)
  next
    case (Some idx)
    show ?thesis
    proof (cases "valid_request idx audios")
      case True
      with Some assms show ?thesis by (simp add: register_valid_request)
    next
      case False
      with Some show ?thesis by (simp add: register_invalid_request)
    qed
  qed
  then show ?A and ?B by simp_all
qed

lemma register_no_duplicate:
  assumes "\<not> name_taken lower name reg"
  shows "fst (register_voice lower extractor uid now io name parsed audios reg) \<noteq> AlreadyRegistered n"
proof (cases parsed)
  case None
  then show ?thesis by (simp add: register_unparsed)
next
  case (Some idx)
  show ?thesis
  proof (cases "valid_request idx audios")
    case True
    with Some assms show ?thesis
      by (simp add: register_valid_request split: sum.splits prod.splits)
  next
    case False
    with Some show ?thesis by (simp add: register_invalid_request)
  qed
qed

subsection \<open>Facts about the example data\<close>

lemma name_taken_only_alice: "name_taken ascii_lower ''alice'' only_alice" "\<not> name_taken ascii_lower ''Bob'' only_alice"
  by (simp_all add: name_taken_def only_alice_def endswith_def alice_profile_def) code_simp+

lemma valid_request_five: "valid_request [0, 1, 2, 3, 4] [(), (), (), (), ()]"
  by (simp add: valid_request_def REQUIRED_PHRASES_def ENROLLMENT_PHRASES_def)

subsection \<open>The pairwise similarities\<close>

lemma row_similarities_ok:
  assumes "0 < length e" "\<forall>x\<in>set xs. length x = length e"
  shows "row_similarities e xs = Inr (map (cosine e) xs)"
  using assms by (induction xs) (simp_all add: cosine_similarity_def)

lemma pairwise_similarities_ok:
  assumes "0 < d" "\<forall>e\<in>set es. length e = d"
  shows "pairwise_similarities es = Inr (pair_cosines es)"
  using assms by (induction es) (simp_all add: row_similarities_ok)

lemma length_pair_cosines: "2 * length (pair_cosines es) = length es * (length es - 1)"
proof (induction es)
  case Nil
  then show ?case by simp
next
  case (Cons e es)
  then show ?case by (cases es) (simp_all add: algebra_simps)
qed

lemma length_pair_cosines_div: "length (pair_cosines es) = length es * (length es - 1) div 2"
  using length_pair_cosines [of es] by presburger

lemma set_pair_cosines:
  "set (pair_cosines es) = {cosine (es ! i) (es ! j) | i j. i < j \<and> j < length es}"
proof (induction es)
  case Nil
  then show ?case by simp
next
  case (Cons e es)
  have "{cosine ((e # es) ! i) ((e # es) ! j) | i j. i < j \<and> j < length (e # es)}
      = cosine e ` set es \<union> {cosine (es ! i) (es ! j) | i j. i < j \<and> j < length es}"
    (is "?L = ?A \<union> ?B")
  proof (rule set_eqI, rule iffI)
    fix c assume "c \<in> ?L"
    then obtain i j where ij: "c = cosine ((e # es) ! i) ((e # es) ! j)" "i < j" "j < Suc (length es)"
      by auto
    from ij(2) obtain j' where j': "j = Suc j'" by (cases j) auto
    show "c \<in> ?A \<union> ?B"
    proof (cases i)
      case 0
      with ij j' have "c = cosine e (es ! j')" "j' < length es" by auto
      then show ?thesis by auto
    next
      case (Suc i')
      with ij j' have "c = cosine (es ! i') (es ! j')" "i' < j'" "j' < length es" by auto
      then show ?thesis by blast
    qed
  next
    fix c assume "c \<in> ?A \<union> ?B"
    then show "c \<in> ?L"
    proof
      assume "c \<in> ?A"
      then obtain x where "x \<in> set es" "c = cosine e x" by auto
      then obtain k where "k < length es" "es ! k = x" by (auto simp add: in_set_conv_nth)
      with \<open>c = cosine e x\<close> have "c = cosine ((e # es) ! 0) ((e # es) ! Suc k) \<and> 0 < Suc k \<and> Suc k < length (e # es)"
        by simp
      then show ?thesis by blast
    next
      assume "c \<in> ?B"
      then obtain i j where "c = cosine (es ! i) (es ! j)" "i < j" "j < length es" by auto
      then have "c = cosine ((e # es) ! Suc i) ((e # es) ! Suc j) \<and> Suc i < Suc j \<and> Suc j < length (e # es)"
        by simp
      then show ?thesis by blast
    qed
  qed
  with Cons show ?case by simp
qed

lemma pair_cosines_nonempty: "2 \<le> length es \<Longrightarrow> pair_cosines es \<noteq> []"
  by (cases es; cases "tl es") auto

lemma create_inconsistent_iff:
  assumes "pairwise_similarities es = Inr sims" "sims \<noteq> []"
  shows "create_voice_profile uid now es name idx =
     (if min_list sims < 70 / 100 then Inl (InconsistentVoiceSamples (min_list sims))
      else
        (case lookup_phrases idx of
           Inl err \<Rightarrow> Inl err
         | Inr used \<Rightarrow>
             Inr \<lparr>user_id = uid,
                  user_name = name,
                  voice_embedding = l2_normalize (np_mean_axis0 es),
                  phrase_embeddings = es,
                  phrase_indices = idx,
                  phrases_used = used,
                  consistency_score = sum_list sims / real (length sims),
                  min_consistency = min_list sims,
                  enrollment_timestamp = now,
                  embedding_dim = length (l2_normalize (np_mean_axis0 es))\<rparr>))"
  using assms by (simp add: create_voice_profile_def statistics_mean_def Let_def)

lemma lookup_phrases_not_inconsistent: "lookup_phrases idx \<noteq> Inl (InconsistentVoiceSamples m)"
  by (induction idx) (auto simp add: py_index_def Let_def split: sum.splits if_splits)

text \<open>Unfolding these evaluates a cosine on concrete vectors.\<close>

lemmas vec_eval = cosine_similarity_def cosine_def sk_normalize_def l2_norm_def dot_def Let_def

lemma pairwise_one_outlier:
  "pairwise_similarities one_outlier = Inr [0, 0, 0, 0, 1, 1, 1, 1, 1, 1]"
  by (simp add: one_outlier_def vec_eval)

lemma extract_one_outlier: "extract_all outlier_first [0, 1, 2, 3, 4] = Inr one_outlier"
  by (simp add: outlier_first_def one_outlier_def)

lemma valid_request_nat: "valid_request [0, 1, 2, 3, 4] [0, 1, 2, 3, 4 :: nat]"
  by (simp add: valid_request_def REQUIRED_PHRASES_def ENROLLMENT_PHRASES_def)

subsection \<open>identify_speaker\<close>

lemma phrase_similarities_ok:
  assumes "0 < length t" "\<forall>e\<in>set es. length e = length t"
  shows "phrase_similarities t es = Inr (map (cosine t) es)"
  using assms by (induction es) (simp_all add: cosine_similarity_def)

lemma foldl_max_Max: "foldl max (x::real) ys = Max (set (x # ys))"
proof -
  have "(\<lambda>x s. max s x) = (max :: real \<Rightarrow> real \<Rightarrow> real)"
    by (intro ext) (rule max.commute)
  then show ?thesis
    by (simp only: Max.set_eq_fold foldl_conv_fold)
qed

lemma py_max_ok: "xs \<noteq> [] \<Longrightarrow> py_max xs = Inr (Max (set xs))"
  by (cases xs) (simp_all add: py_max_def foldl_max_Max del: foldl_Cons)

lemma score_profile_ok:
  assumes "comparable t p"
  shows "score_profile t p = Inr (entry_of t p)"
proof -
  from assms have t: "0 < length t" and c: "length (voice_embedding p) = length t"
    and ne: "phrase_embeddings p \<noteq> []"
    and d: "\<forall>e\<in>set (phrase_embeddings p). length e = length t"
    by (simp_all add: comparable_def list_all_iff)
  from t c have 1: "cosine_similarity t (voice_embedding p) = Inr (cosine t (voice_embedding p))"
    by (simp add: cosine_similarity_def)
  from ne have 2: "py_max (map (cosine t) (phrase_embeddings p))
      = Inr (Max (cosine t ` set (phrase_embeddings p)))"
    by (simp add: py_max_ok)
  show ?thesis
    by (simp add: score_profile_def 1 2 phrase_similarities_ok [OF t d] entry_of_def spec_score_def)
qed

lemma score_entry_of [simp]: "score (entry_of t p) = spec_score t p"
  by (simp add: entry_of_def)

lemma foldl_max_ge: "(b::real) \<le> foldl max b xs"
proof (induction xs arbitrary: b)
  case Nil
  then show ?case by simp
next
  case (Cons x xs)
  have "b \<le> max b x" by simp
  also have "\<dots> \<le> foldl max (max b x) xs" by (rule Cons.IH)
  finally show ?case by simp
qed

lemma score_loop_ok:
  assumes "\<forall>p\<in>set ps. comparable t p"
  shows "score_loop t ps (bm, bs, acc) =
     Inr (if bs < foldl max bs (map (spec_score t) ps)
          then find (\<lambda>p. spec_score t p = foldl max bs (map (spec_score t) ps)) ps
          else bm,
          foldl max bs (map (spec_score t) ps),
          acc @ map (entry_of t) ps)"
  using assms
proof (induction ps arbitrary: bm bs acc)
  case Nil
  then show ?case by simp
next
  case (Cons p ps)
  let ?s = "spec_score t p"
  from Cons.prems have sp: "score_profile t p = Inr (entry_of t p)"
    by (simp add: score_profile_ok)
  from Cons.prems have rest: "\<forall>p\<in>set ps. comparable t p" by simp
  show ?case
  proof (cases "bs < ?s")
    case True
    then have m: "max bs ?s = ?s" by simp
    let ?M = "foldl max ?s (map (spec_score t) ps)"
    have ge: "?s \<le> ?M" by (rule foldl_max_ge)
    with True have gt: "bs < ?M" by simp
    have "score_loop t (p # ps) (bm, bs, acc) = score_loop t ps (Some p, ?s, acc @ [entry_of t p])"
      using True by (simp add: sp)
    also have "\<dots> = Inr (if ?s < ?M then find (\<lambda>p. spec_score t p = ?M) ps else Some p, ?M,
        (acc @ [entry_of t p]) @ map (entry_of t) ps)"
      by (rule Cons.IH [OF rest])
    finally show ?thesis using ge gt by (auto simp add: m)
  next
    case False
    then have m: "max bs ?s = bs" by simp
    let ?M = "foldl max bs (map (spec_score t) ps)"
    have ge: "bs \<le> ?M" by (rule foldl_max_ge)
    have "score_loop t (p # ps) (bm, bs, acc) = score_loop t ps (bm, bs, acc @ [entry_of t p])"
      using False by (simp add: sp)
    also have "\<dots> = Inr (if bs < ?M then find (\<lambda>p. spec_score t p = ?M) ps else bm, ?M,
        (acc @ [entry_of t p]) @ map (entry_of t) ps)"
      by (rule Cons.IH [OF rest])
    finally show ?thesis using ge False by (auto simp add: m)
  qed
qed

lemma foldl_max_best:
  assumes "ps \<noteq> []"
  shows "foldl max 0 (map (spec_score t) ps) = max 0 (best_of t ps)"
proof -
  have "foldl max 0 (map (spec_score t) ps) = Max (set (0 # map (spec_score t) ps))"
    by (rule foldl_max_Max)
  also have "\<dots> = max 0 (Max (spec_score t ` set ps))"
    using assms by (simp add: Max_insert)
  finally show ?thesis by (simp add: best_of_def)
qed

lemma find_best:
  assumes "ps \<noteq> []"
  shows "\<exists>p. find (\<lambda>p. spec_score t p = best_of t ps) ps = Some p \<and> p \<in> set ps \<and> spec_score t p = best_of t ps"
proof -
  have "best_of t ps \<in> spec_score t ` set ps"
    unfolding best_of_def using assms by (intro Max_in) simp_all
  then obtain q where "q \<in> set ps" "spec_score t q = best_of t ps" by auto
  then have "find (\<lambda>p. spec_score t p = best_of t ps) ps \<noteq> None"
    by (auto simp add: find_None_iff)
  then obtain p where p: "find (\<lambda>p. spec_score t p = best_of t ps) ps = Some p" by auto
  then have "p \<in> set ps \<and> spec_score t p = best_of t ps"
    by (auto simp add: find_Some_iff)
  with p show ?thesis by blast
qed

lemma identify_speaker_ok:
  assumes "fst (load_all_profiles reg) = ps" "ps \<noteq> []" "\<forall>p\<in>set ps. comparable t p"
  shows "identify_speaker t th reg =
     Inr (if th \<le> max 0 (best_of t ps) \<and> 0 < best_of t ps
          then find (\<lambda>p. spec_score t p = best_of t ps) ps else None,
          max 0 (best_of t ps),
          Scores (sort_scores (map (entry_of t) ps)))"
proof -
  have b: "foldl max 0 (map (spec_score t) ps) = max 0 (best_of t ps)"
    using assms(2) by (rule foldl_max_best)
  show ?thesis
    using assms(1,2)
    by (auto simp add: identify_speaker_def score_loop_ok [OF assms(3)] b max_def)
qed

lemma identify_speaker_empty:
  assumes "fst (load_all_profiles reg) = []"
  shows "identify_speaker t th reg = Inr (None, 0, Message ''No profiles in registry'')"
  using assms by (simp add: identify_speaker_def)

lemma sorted_sort_scores: "sorted_wrt (\<lambda>a b. score b \<le> score a) (sort_scores xs)"
proof -
  have "sorted (map (\<lambda>x. - score x) (sort_key (\<lambda>x. - score x) xs))"
    by (rule sorted_sort_key)
  then show ?thesis by (simp add: sort_scores_def sorted_wrt_map)
qed

lemma mset_sort_scores: "mset (sort_scores xs) = mset xs"
  by (simp add: sort_scores_def)

lemma stable_sort_scores: "filter (\<lambda>e. score e = k) (sort_scores xs) = filter (\<lambda>e. score e = k) xs"
proof -
  have "filter (\<lambda>e. - score e = - k) (sort_key (\<lambda>x. - score x) xs) = filter (\<lambda>e. - score e = - k) xs"
    by (rule sort_key_stable)
  then show ?thesis by (simp add: sort_scores_def)
qed

lemma identify_voice_nonempty:
  assumes "extractor a = Inr t" and "fst (load_all_profiles reg) = ps" and "ps \<noteq> []"
    and "\<forall>p\<in>set ps. comparable t p"
  shows "(IDENTIFICATION_THRESHOLD \<le> best_of t ps \<longrightarrow>
           (\<exists>p. find (\<lambda>p. spec_score t p = best_of t ps) ps = Some p \<and>
              identify_voice extractor a reg =
                Identified (user_id p) (user_name p) (best_of t ps) (enrollment_timestamp p)
                  (Scores (take 5 (sort_scores (map (entry_of t) ps)))))) \<and>
         (best_of t ps < IDENTIFICATION_THRESHOLD \<longrightarrow>
            identify_voice extractor a reg =
              NotIdentified (max 0 (best_of t ps))
                (Scores (take 3 (sort_scores (map (entry_of t) ps)))))"
proof -
  note i = identify_speaker_ok [OF assms(2,3,4), of IDENTIFICATION_THRESHOLD]
  from find_best [OF assms(3), of t] obtain p
    where p: "find (\<lambda>p. spec_score t p = best_of t ps) ps = Some p" by blast
  have pos: "0 < IDENTIFICATION_THRESHOLD" by (simp add: IDENTIFICATION_THRESHOLD_def)
  show ?thesis
  proof (cases "IDENTIFICATION_THRESHOLD \<le> best_of t ps")
    case True
    with pos have "0 < best_of t ps" "IDENTIFICATION_THRESHOLD \<le> max 0 (best_of t ps)"
      "max 0 (best_of t ps) = best_of t ps" by simp_all
    with True p show ?thesis
      by (simp add: identify_voice_def assms(1) i)
  next
    case False
    with pos have "\<not> IDENTIFICATION_THRESHOLD \<le> max 0 (best_of t ps)" by simp
    with False show ?thesis
      by (simp add: identify_voice_def assms(1) i)
  qed
qed

lemma identify_voice_empty:
  assumes "extractor a = Inr t" and "fst (load_all_profiles reg) = []"
  shows "identify_voice extractor a reg = NotIdentified 0 (Message ''No '')"
  using assms by (simp add: identify_voice_def identify_speaker_empty)

subsection \<open>Scores of the example data\<close>

lemmas example_defs = mk_profile_def bob_profile_def carol_profile_def dave_profile_def erin_profile_def
  three_voices_def two_voices_def opposite_voice_def

lemma load_three: "fst (load_all_profiles three_voices) = [bob_profile, carol_profile, dave_profile]"
  by (simp add: three_voices_def endswith_def)

lemma load_two: "fst (load_all_profiles two_voices) = [bob_profile, carol_profile]"
  by (simp add: two_voices_def endswith_def)

lemma load_opposite: "fst (load_all_profiles opposite_voice) = [erin_profile]"
  by (simp add: opposite_voice_def endswith_def)

lemma scores_ex:
  "spec_score [1, 0] bob_profile = 0"
  "spec_score [1, 0] carol_profile = 3 / 5"
  "spec_score [1, 0] dave_profile = 1"
  "spec_score [1, 0] erin_profile = - 1"
  by (simp_all add: spec_score_def example_defs vec_eval)

lemma comparable_ex:
  "comparable [1, 0] bob_profile" "comparable [1, 0] carol_profile"
  "comparable [1, 0] dave_profile" "comparable [1, 0] erin_profile"
  by (simp_all add: comparable_def example_defs)

lemma identify_three:
  "identify_speaker [1, 0] IDENTIFICATION_THRESHOLD three_voices =
     Inr (Some dave_profile, 1,
       Scores [entry_of [1, 0] dave_profile, entry_of [1, 0] carol_profile, entry_of [1, 0] bob_profile])"
  by (simp add: identify_speaker_def load_three score_profile_ok comparable_ex scores_ex
      sort_scores_def IDENTIFICATION_THRESHOLD_def)

lemma identify_opposite:
  "identify_speaker [1, 0] IDENTIFICATION_THRESHOLD opposite_voice =
     Inr (None, 0, Scores [entry_of [1, 0] erin_profile])"
  by (simp add: identify_speaker_def load_opposite score_profile_ok comparable_ex scores_ex
      sort_scores_def IDENTIFICATION_THRESHOLD_def)

lemma best_three: "best_of [1, 0] [bob_profile, carol_profile, dave_profile] = 1"
  by (simp add: best_of_def scores_ex)

lemma best_two: "best_of [1, 0] [bob_profile, carol_profile] = 3 / 5"
  by (simp add: best_of_def scores_ex)

lemma sort_three:
  "sort_scores (map (entry_of [1, 0]) [bob_profile, carol_profile, dave_profile])
     = [entry_of [1, 0] dave_profile, entry_of [1, 0] carol_profile, entry_of [1, 0] bob_profile]"
  by (simp add: sort_scores_def scores_ex)

lemma sort_two:
  "sort_scores (map (entry_of [1, 0]) [bob_profile, carol_profile])
     = [entry_of [1, 0] carol_profile, entry_of [1, 0] bob_profile]"
  by (simp add: sort_scores_def scores_ex)

subsection \<open>Dot products, sums and the centroid\<close>

lemma dot_Nil [simp]: "dot [] b = 0" "dot a [] = 0"
  by (simp_all add: dot_def)

lemma dot_Cons [simp]: "dot (x # a) (y # b) = x * y + dot a b"
  by (simp add: dot_def)

lemma dot_sym: "dot a b = dot b a"
proof (induction a arbitrary: b)
  case Nil
  then show ?case by simp
next
  case (Cons x a)
  then show ?case by (cases b) simp_all
qed

lemma dot_self_nonneg: "0 \<le> dot a a"
  by (induction a) simp_all

lemma dot_scale: "dot (map (\<lambda>x. x / k) a) (map (\<lambda>x. x / l) b) = dot a b / (k * l)"
proof (induction a arbitrary: b)
  case Nil
  then show ?case by simp
next
  case (Cons x a)
  then show ?case by (cases b) (simp_all add: add_divide_distrib)
qed

lemma vadd_Cons [simp]: "vadd (x # a) (y # b) = (x + y) # vadd a b"
  by (simp add: vadd_def)

lemma vadd_Nil [simp]: "vadd [] b = []" "vadd a [] = []"
  by (simp_all add: vadd_def)

lemma length_vadd: "length (vadd a b) = min (length a) (length b)"
  by (simp add: vadd_def)

lemma dot_vadd: "length a = length b \<Longrightarrow> dot c (vadd a b) = dot c a + dot c b"
proof (induction a b arbitrary: c rule: list_induct2)
  case Nil
  then show ?case by simp
next
  case (Cons x a y b)
  then show ?case by (cases c) (simp_all add: algebra_simps)
qed

lemma length_vsum:
  assumes "es \<noteq> []" "\<forall>e\<in>set es. length e = d"
  shows "length (vsum es) = d"
  using assms by (induction es rule: vsum.induct) (simp_all add: length_vadd)

lemma dot_vsum_pos:
  assumes "es \<noteq> []" "\<forall>e\<in>set es. length e = d" "\<forall>e\<in>set es. 0 < dot x e"
  shows "0 < dot x (vsum es)"
  using assms
proof (induction es rule: vsum.induct)
  case 1
  then show ?case by simp
next
  case (2 e)
  then show ?case by simp
next
  case (3 e v va)
  have l: "length (vsum (v # va)) = d"
    using "3.prems" by (intro length_vsum) simp_all
  have "0 < dot x (vsum (v # va))"
    using "3.prems" by (intro "3.IH") simp_all
  moreover have "0 < dot x e" using "3.prems" by simp
  moreover have "length e = d" using "3.prems" by simp
  ultimately show ?case using l by (simp add: dot_vadd)
qed

lemma l2_norm_nonneg: "0 \<le> l2_norm v"
  by (simp add: l2_norm_def dot_self_nonneg)

lemma cosine_eq: "cosine a b =
  dot a b / ((if l2_norm a = 0 then 1 else l2_norm a) * (if l2_norm b = 0 then 1 else l2_norm b))"
  by (simp add: cosine_def sk_normalize_def Let_def dot_scale)

lemma cosine_pos_dot:
  assumes "0 < cosine a b"
  shows "0 < dot a b"
proof -
  let ?k = "(if l2_norm a = 0 then 1 else l2_norm a) * (if l2_norm b = 0 then 1 else l2_norm b)"
  have "0 < ?k"
    using l2_norm_nonneg [of a] l2_norm_nonneg [of b] by (auto intro!: mult_pos_pos)
  moreover from assms have "0 < dot a b / ?k" by (simp only: cosine_eq)
  ultimately show ?thesis by (simp add: zero_less_divide_iff)
qed

lemma vsum_self_pos:
  assumes "2 \<le> length es" "\<forall>e\<in>set es. length e = d"
    and "\<forall>c\<in>set (pair_cosines es). 0 < c"
  shows "0 < dot (vsum es) (vsum es)"
proof -
  from assms(1) obtain e v va where es: "es = e # v # va"
    by (cases es; cases "tl es") auto
  let ?S = "vsum (v # va)"
  have l: "length ?S = d" "length e = d"
    using assms(2) es by (simp_all add: length_vsum)
  have "\<forall>x\<in>set (v # va). 0 < cosine e x"
    using assms(3) es by auto
  then have "\<forall>x\<in>set (v # va). 0 < dot e x"
    by (auto intro: cosine_pos_dot)
  then have p: "0 < dot e ?S"
    using assms(2) es by (intro dot_vsum_pos [where d = d]) simp_all
  have "dot (vsum es) (vsum es) = dot (vadd e ?S) (vadd e ?S)"
    by (simp add: es)
  also have "\<dots> = dot (vadd e ?S) e + dot (vadd e ?S) ?S"
    using l by (simp add: dot_vadd)
  also have "\<dots> = dot e e + 2 * dot e ?S + dot ?S ?S"
    using l by (simp add: dot_sym [of "vadd e ?S"] dot_vadd dot_sym [of ?S e])
  finally show ?thesis
    using p dot_self_nonneg [of e] dot_self_nonneg [of ?S] by simp
qed

lemma l2_norm_normalize:
  assumes "0 < dot m m"
  shows "l2_norm (l2_normalize m) = 1"
proof -
  have n: "l2_norm m * l2_norm m = dot m m"
    using assms by (simp add: l2_norm_def)
  have "dot (l2_normalize m) (l2_normalize m) = dot m m / (l2_norm m * l2_norm m)"
    by (simp add: l2_normalize_def dot_scale)
  also have "\<dots> = 1" using assms by (simp add: n)
  finally show ?thesis by (simp add: l2_norm_def)
qed

lemma mean_self_pos:
  assumes "0 < dot (vsum es) (vsum es)" "es \<noteq> []"
  shows "0 < dot (np_mean_axis0 es) (np_mean_axis0 es)"
  using assms by (simp add: np_mean_axis0_def dot_scale zero_less_divide_iff)

lemma vadd_nth: "k < length a \<Longrightarrow> k < length b \<Longrightarrow> vadd a b ! k = a ! k + b ! k"
  by (simp add: vadd_def)

lemma vsum_nth:
  assumes "es \<noteq> []" "\<forall>e\<in>set es. length e = d" "k < d"
  shows "vsum es ! k = (\<Sum>e\<leftarrow>es. e ! k)"
  using assms
proof (induction es rule: vsum.induct)
  case 1
  then show ?case by simp
next
  case (2 e)
  then show ?case by simp
next
  case (3 e v va)
  have l: "length (vsum (v # va)) = d"
    using "3.prems" by (intro length_vsum) simp_all
  have "vsum (v # va) ! k = (\<Sum>e\<leftarrow>v # va. e ! k)"
    using "3.prems" by (intro "3.IH") simp_all
  then show ?case using l "3.prems" by (simp add: vadd_nth)
qed

lemma np_mean_elementwise:
  assumes "es \<noteq> []" "\<forall>e\<in>set es. length e = d"
  shows "np_mean_axis0 es = elementwise_mean es"
proof (rule nth_equalityI)
  have h: "length (hd es) = d" using assms by (cases es) simp_all
  have lv: "length (vsum es) = d" using assms by (rule length_vsum)
  show "length (np_mean_axis0 es) = length (elementwise_mean es)"
    by (simp add: np_mean_axis0_def elementwise_mean_def lv h)
  fix k assume "k < length (np_mean_axis0 es)"
  then have k: "k < d" by (simp add: np_mean_axis0_def lv)
  then show "np_mean_axis0 es ! k = elementwise_mean es ! k"
    by (simp add: np_mean_axis0_def elementwise_mean_def lv h vsum_nth [OF assms k])
qed

lemma dot_self_squares: "dot m m = (\<Sum>x\<leftarrow>m. x\<^sup>2)"
  by (induction m) (simp_all add: power2_eq_square)

lemma l2_normalize_spec: "l2_normalize m = map (\<lambda>x. x / sqrt (\<Sum>x\<leftarrow>m. x\<^sup>2)) m"
  by (simp add: l2_normalize_def l2_norm_def dot_self_squares)

lemma centroid_spec:
  assumes "es \<noteq> []" "\<forall>e\<in>set es. length e = d"
  shows "l2_normalize (np_mean_axis0 es) = spec_centroid es"
  by (simp add: np_mean_elementwise [OF assms] l2_normalize_spec spec_centroid_def Let_def)

lemma lookup_phrases_valid:
  assumes "filter (\<lambda>i. i < 0 \<or> i \<ge> int (length ENROLLMENT_PHRASES)) idx = []"
  shows "lookup_phrases idx = Inr (map (\<lambda>i. ENROLLMENT_PHRASES ! nat i) idx)"
  using assms
proof (induction idx)
  case Nil
  then show ?case by simp
next
  case (Cons i idx)
  from Cons.prems have i: "0 \<le> i" "i < int (length ENROLLMENT_PHRASES)"
    and rest: "filter (\<lambda>i. i < 0 \<or> i \<ge> int (length ENROLLMENT_PHRASES)) idx = []"
    by (simp_all split: if_splits)
  from i have "py_index ENROLLMENT_PHRASES i = Inr (ENROLLMENT_PHRASES ! nat i)"
    by (simp add: py_index_def Let_def)
  with Cons.IH [OF rest] show ?case by simp
qed

lemma create_accepted:
  assumes "pairwise_similarities es = Inr sims" "sims \<noteq> []" "70 / 100 \<le> min_list sims"
    and "lookup_phrases idx = Inr used"
  shows "create_voice_profile uid now es name idx =
     Inr \<lparr>user_id = uid,
          user_name = name,
          voice_embedding = l2_normalize (np_mean_axis0 es),
          phrase_embeddings = es,
          phrase_indices = idx,
          phrases_used = used,
          consistency_score = sum_list sims / real (length sims),
          min_consistency = min_list sims,
          enrollment_timestamp = now,
          embedding_dim = length (l2_normalize (np_mean_axis0 es))\<rparr>"
  using assms by (simp add: create_inconsistent_iff)

lemma create_result:
  assumes "pairwise_similarities es = Inr sims" "sims \<noteq> []"
    and "create_voice_profile uid now es name idx = Inr p"
  shows "70 / 100 \<le> min_list sims"
    and "voice_embedding p = l2_normalize (np_mean_axis0 es)"
    and "phrase_embeddings p = es"
    and "min_consistency p = min_list sims"
    and "consistency_score p = sum_list sims / real (length sims)"
    and "user_id p = uid"
  using assms(3) unfolding create_inconsistent_iff [OF assms(1,2)]
  by (auto split: if_splits sum.splits)

lemma accepted_centroid_unit:
  assumes "2 \<le> length es" "0 < d" "\<forall>e\<in>set es. length e = d"
    and "70 / 100 \<le> min_list (pair_cosines es)"
  shows "l2_norm (l2_normalize (np_mean_axis0 es)) = 1"
    and "length (l2_normalize (np_mean_axis0 es)) = d"
proof -
  have ne: "pair_cosines es \<noteq> []" using assms(1) by (rule pair_cosines_nonempty)
  have es: "es \<noteq> []" using assms(1) by auto
  have "70 / 100 \<le> Min (set (pair_cosines es))"
    using assms(4) min_list_Min [OF ne] by metis
  then have "\<forall>c\<in>set (pair_cosines es). 70 / 100 \<le> c"
    using ne by (subst (asm) Min_ge_iff) simp_all
  then have "\<forall>c\<in>set (pair_cosines es). 0 < c" by fastforce
  then have "0 < dot (vsum es) (vsum es)"
    using assms(1,3) by (intro vsum_self_pos [where d = d])
  then have "0 < dot (np_mean_axis0 es) (np_mean_axis0 es)"
    using es by (rule mean_self_pos)
  then show "l2_norm (l2_normalize (np_mean_axis0 es)) = 1"
    by (rule l2_norm_normalize)
  show "length (l2_normalize (np_mean_axis0 es)) = d"
    by (simp add: l2_normalize_def np_mean_axis0_def length_vsum [OF es assms(3)])
qed

lemma cosine_unit_self:
  assumes "l2_norm v = 1"
  shows "cosine v v = 1"
proof -
  from assms have "dot v v = 1" by (simp add: l2_norm_def)
  with assms show ?thesis by (simp add: cosine_eq)
qed

lemma unit_nonempty: "l2_norm v = 1 \<Longrightarrow> 0 < length v"
  by (cases v) (simp_all add: l2_norm_def)

lemma vadd_map: "vadd v (map f v) = map (\<lambda>x. x + f x) v"
  by (induction v) simp_all

lemma vsum_replicate: "vsum (replicate (Suc n) v) = map (\<lambda>x. real (Suc n) * x) v"
proof (induction n)
  case 0
  then show ?case by simp
next
  case (Suc n)
  have "vsum (replicate (Suc (Suc n)) v) = vadd v (vsum (replicate (Suc n) v))"
    by simp
  also have "\<dots> = map (\<lambda>x. x + real (Suc n) * x) v"
    by (simp only: Suc vadd_map)
  also have "\<dots> = map (\<lambda>x. real (Suc (Suc n)) * x) v"
    by (simp add: algebra_simps)
  finally show ?case .
qed

lemma np_mean_replicate:
  assumes "0 < n"
  shows "np_mean_axis0 (replicate n v) = v"
proof -
  from assms obtain k where n: "n = Suc k" by (cases n) auto
  have "np_mean_axis0 (replicate (Suc k) v) = map (\<lambda>x. real (Suc k) * x / real (Suc k)) v"
    by (simp only: np_mean_axis0_def vsum_replicate length_replicate map_map comp_def)
  also have "\<dots> = v"
    by (simp add: map_idI)
  finally show ?thesis by (simp add: n)
qed

lemma l2_normalize_unit:
  assumes "l2_norm v = 1"
  shows "l2_normalize v = v"
  using assms by (simp add: l2_normalize_def)

lemma pair_cosines_replicate:
  assumes "l2_norm v = 1"
  shows "pair_cosines (replicate n v) = replicate (length (pair_cosines (replicate n v))) 1"
proof -
  have "\<forall>c\<in>set (pair_cosines (replicate n v)). c = 1"
    by (auto simp add: set_pair_cosines cosine_unit_self [OF assms])
  then show ?thesis by (simp add: replicate_length_same)
qed

lemma identical_batch:
  assumes "2 \<le> n" "l2_norm v = 1"
  shows "\<exists>sims. pairwise_similarities (replicate n v) = Inr sims \<and> sims \<noteq> [] \<and>
           min_list sims = 1 \<and> sum_list sims / real (length sims) = 1"
proof -
  let ?sims = "pair_cosines (replicate n v)"
  have p: "pairwise_similarities (replicate n v) = Inr ?sims"
    using unit_nonempty [OF assms(2)] by (intro pairwise_similarities_ok [where d = "length v"]) simp_all
  have ne: "?sims \<noteq> []"
    using assms(1) by (intro pair_cosines_nonempty) simp
  then have l: "0 < length ?sims" by simp
  have r: "?sims = replicate (length ?sims) 1"
    using assms(2) by (rule pair_cosines_replicate)
  have "set ?sims = {1}"
    using l by (subst r) simp
  then have m: "min_list ?sims = 1"
    using ne by (simp add: min_list_Min)
  have "sum_list ?sims = real (length ?sims)"
    by (subst r) (simp add: sum_list_replicate)
  then have a: "sum_list ?sims / real (length ?sims) = 1"
    using l by simp
  from p ne m a show ?thesis by blast
qed

lemma all_pairs_iff:
  "(\<forall>i j. i < j \<and> j < length es \<longrightarrow> P (cosine (es ! i) (es ! j)))
     \<longleftrightarrow> (\<forall>c\<in>set (pair_cosines es). P c)"
  by (auto simp add: set_pair_cosines)

lemma create_total:
  assumes "2 \<le> length es" "0 < d" "\<forall>e\<in>set es. length e = d"
    and "\<forall>i j. i < j \<and> j < length es \<longrightarrow> 70 / 100 \<le> cosine (es ! i) (es ! j)"
    and "valid_indices idx"
  shows "\<exists>q. create_voice_profile uid now es name idx = Inr q"
proof -
  have p: "pairwise_similarities es = Inr (pair_cosines es)"
    using assms(2,3) by (rule pairwise_similarities_ok)
  have ne: "pair_cosines es \<noteq> []" using assms(1) by (rule pair_cosines_nonempty)
  from assms(4) have "\<forall>c\<in>set (pair_cosines es). 70 / 100 \<le> c"
    by (simp only: all_pairs_iff)
  then have "70 / 100 \<le> Min (set (pair_cosines es))"
    using ne by (subst Min_ge_iff) simp_all
  then have m: "70 / 100 \<le> min_list (pair_cosines es)"
    using min_list_Min [OF ne] by metis
  have l: "lookup_phrases idx = Inr (map (\<lambda>i. ENROLLMENT_PHRASES ! nat i) idx)"
    using assms(5) unfolding valid_indices_def by (rule lookup_phrases_valid)
  show ?thesis
    by (simp add: create_accepted [OF p ne m l])
qed

lemma create_centroid:
  assumes "2 \<le> length es" "0 < d" "\<forall>e\<in>set es. length e = d"
    and "create_voice_profile uid now es name idx = Inr p"
  shows "voice_embedding p = spec_centroid es" and "length (voice_embedding p) = d"
    and "l2_norm (voice_embedding p) = 1" and "phrase_embeddings p = es"
proof -
  have p: "pairwise_similarities es = Inr (pair_cosines es)"
    using assms(2,3) by (rule pairwise_similarities_ok)
  have ne: "pair_cosines es \<noteq> []" using assms(1) by (rule pair_cosines_nonempty)
  have es: "es \<noteq> []" using assms(1) by auto
  note r = create_result [OF p ne assms(4)]
  show "voice_embedding p = spec_centroid es"
    by (simp add: r(2) centroid_spec [OF es assms(3)])
  show "length (voice_embedding p) = d"
    by (simp add: r(2) accepted_centroid_unit(2) [OF assms(1,2,3) r(1)])
  show "l2_norm (voice_embedding p) = 1"
    by (simp add: r(2) accepted_centroid_unit(1) [OF assms(1,2,3) r(1)])
  show "phrase_embeddings p = es" by (rule r(3))
qed

lemma create_identical:
  assumes "2 \<le> n" "l2_norm v = 1" "valid_indices idx"
  shows "\<exists>q. create_voice_profile uid now (replicate n v) name idx = Inr q \<and>
           min_consistency q = 1 \<and> consistency_score q = 1 \<and> voice_embedding q = v"
proof -
  from identical_batch [OF assms(1,2)] obtain sims
    where s: "pairwise_similarities (replicate n v) = Inr sims" "sims \<noteq> []"
      "min_list sims = 1" "sum_list sims / real (length sims) = 1"
    by blast
  have l: "lookup_phrases idx = Inr (map (\<lambda>i. ENROLLMENT_PHRASES ! nat i) idx)"
    using assms(3) unfolding valid_indices_def by (rule lookup_phrases_valid)
  have m: "70 / 100 \<le> min_list sims" by (simp add: s(3))
  have n: "0 < n" using assms(1) by simp
  show ?thesis
    by (simp add: create_accepted [OF s(1,2) m l] s(3,4) np_mean_replicate [OF n]
        l2_normalize_unit [OF assms(2)])
qed

subsection \<open>Facts about the example batches\<close>

lemma valid_indices_ex: "valid_indices [0, 1]" "valid_indices [0, 1, 2, 3, 4]"
  by (simp_all add: valid_indices_def ENROLLMENT_PHRASES_def)

lemma near_pair_cosines: "pair_cosines near_pair = [24 / 25]"
  by (simp add: near_pair_def vec_eval)

lemma unit_ex: "l2_norm [1, 0] = 1"
  by (simp add: l2_norm_def dot_def)

lemma register_completes:
  assumes "valid_request idx audios" "\<not> name_taken lower name reg"
    and "extract_all extractor audios = Inr es"
    and "create_voice_profile uid now es name idx = Inr p"
  shows "register_voice lower extractor uid now WriteCompletes name (Some idx) audios reg =
     (Registered (user_id p) (user_name p) (length es) (consistency_score p),
      write_file (profile_path (user_id p)) (Doc p) reg)"
  using assms by (simp add: register_valid_request save_voice_profile_def Let_def)

lemma loud_cosines: "pairwise_similarities loud_batch = Inr [1, 1, 1, 1, 1, 1, 1, 1, 1, 1]"
  by (simp add: loud_batch_def vec_eval)

lemma loud_norm: "l2_norm [2, 0] = 2"
  by (simp add: l2_norm_def dot_def)

lemma create_loud:
  "create_voice_profile ''u6'' 0 loud_batch ''Frank'' [0, 1, 2, 3, 4] =
     Inr \<lparr>user_id = ''u6'', user_name = ''Frank'', voice_embedding = [1, 0],
          phrase_embeddings = loud_batch, phrase_indices = [0, 1, 2, 3, 4],
          phrases_used = take 5 ENROLLMENT_PHRASES,
          consistency_score = 1, min_consistency = 1, enrollment_timestamp = 0,
          embedding_dim = 2\<rparr>"
proof -
  have "lookup_phrases [0, 1, 2, 3, 4] = Inr (map (\<lambda>i. ENROLLMENT_PHRASES ! nat i) [0, 1, 2, 3, 4])"
    using valid_indices_ex(2) unfolding valid_indices_def by (rule lookup_phrases_valid)
  also have "map (\<lambda>i. ENROLLMENT_PHRASES ! nat i) [0, 1, 2, 3, 4] = take 5 ENROLLMENT_PHRASES"
    by (simp add: ENROLLMENT_PHRASES_def)
  finally have l: "lookup_phrases [0, 1, 2, 3, 4] = Inr (take 5 ENROLLMENT_PHRASES)" .
  have m: "l2_normalize (np_mean_axis0 loud_batch) = [1, 0]"
    by (simp add: loud_batch_def np_mean_axis0_def l2_normalize_def l2_norm_def dot_def vadd_def)
  show ?thesis
    by (simp add: create_accepted [OF loud_cosines _ _ l] m)
qed

subsection \<open>What register_voice leaves in the registry\<close>



lemma save_cases:
  "save_voice_profile OpenRaises p reg = (Inl OSError, reg)"
  "save_voice_profile DumpRaises p reg = (Inl OSError, write_file (profile_path (user_id p)) Unreadable reg)"
  "save_voice_profile WriteCompletes p reg = (Inr (profile_path (user_id p)), write_file (profile_path (user_id p)) (Doc p) reg)"
  by (simp_all add: save_voice_profile_def Let_def)



lemma create_frank:
  "create_voice_profile ''u6'' 0 loud_batch ''Frank'' [0, 1, 2, 3, 4] = Inr frank_profile"
  by (simp only: create_loud frank_profile_def)

lemma extract_loud: "extract_all loud [0, 1, 2, 3, 4] = Inr loud_batch"
  by (simp add: loud_def loud_batch_def)

lemma frank_not_taken: "\<not> name_taken ascii_lower ''Frank'' []"
  by (simp add: name_taken_def)

lemma register_frank:
  "register_voice ascii_lower loud ''u6'' 0 io ''Frank'' (Some [0, 1, 2, 3, 4]) [0, 1, 2, 3, 4] [] =
     (case io of
        OpenRaises \<Rightarrow> (RegistrationFailed OSError, [])
      | DumpRaises \<Rightarrow> (RegistrationFailed OSError, [(''u6.json'', Unreadable)])
      | WriteCompletes \<Rightarrow> (Registered ''u6'' ''Frank'' 5 1, [(''u6.json'', Doc frank_profile)]))"
proof -
  have u: "user_id frank_profile = ''u6''" "user_name frank_profile = ''Frank''"
    "consistency_score frank_profile = 1"
    by (simp_all add: frank_profile_def)
  have l: "length loud_batch = 5" by (simp add: loud_batch_def)
  show ?thesis
    by (cases io)
      (simp_all only: register_valid_request [OF valid_request_nat] frank_not_taken if_False
        extract_loud create_frank sum.case save_cases prod.case u l io_outcome.case
        write_file_def profile_path_def AList.update.simps append.simps)
qed

subsection \<open>More facts about the example data\<close>

lemma five_with_bad_indices:
  "\<not> valid_request [0, 1, 2, 15, - 1] [(), (), (), (), ()]"
  "filter (\<lambda>i. i < 0 \<or> i \<ge> int (length ENROLLMENT_PHRASES)) [0, 1, 2, 15, - 1] = [15, - 1]"
  by (simp_all add: valid_request_def REQUIRED_PHRASES_def ENROLLMENT_PHRASES_def)

lemma alice_scores:
  "comparable [1, 0] alice_profile" "spec_score [1, 0] alice_profile = 1"
  by (simp_all add: comparable_def spec_score_def alice_profile_def vec_eval)

lemma load_damaged: "load_all_profiles alice_and_damaged = ([alice_profile], [''u0.json''])"
  by (simp add: alice_and_damaged_def endswith_def)

section \<open>The claims\<close>

text \<open>
  C1. For a batch of at least two embeddings of one dimension, the pairwise loop
  collects the \<open>N * (N - 1) / 2\<close> cosine similarities of the unordered pairs, and
  \<open>create_voice_profile\<close> raises the inconsistent-samples error exactly when their
  minimum is below 0.70. \<open>register_voice\<close> then answers with that failure and leaves
  the registry as it was.
\<close>

theorem create_voice_profile_inconsistent:
  assumes "2 \<le> length es" and "0 < d" and "\<forall>e\<in>set es. length e = d"
  shows "\<exists>sims. pairwise_similarities es = Inr sims \<and>
      length sims = length es * (length es - 1) div 2 \<and>
      set sims = {cosine (es ! i) (es ! j) | i j. i < j \<and> j < length es} \<and>
      ((\<exists>m. create_voice_profile uid now es name idx = Inl (InconsistentVoiceSamples m))
         \<longleftrightarrow> Min (set sims) < 70 / 100) \<and>
      (Min (set sims) < 70 / 100 \<longrightarrow>
         create_voice_profile uid now es name idx = Inl (InconsistentVoiceSamples (Min (set sims))) \<and>
         (valid_request idx audios \<and> \<not> name_taken lower name reg \<and> extract_all extractor audios = Inr es \<longrightarrow>
            register_voice lower extractor uid now io name (Some idx) audios reg
              = (RegistrationFailed (InconsistentVoiceSamples (Min (set sims))), reg)))"
proof -
  let ?sims = "pair_cosines es"
  have p: "pairwise_similarities es = Inr ?sims"
    using assms by (simp add: pairwise_similarities_ok)
  have ne: "?sims \<noteq> []"
    using assms(1) by (rule pair_cosines_nonempty)
  have mn: "min_list ?sims = Min (set ?sims)"
    using ne by (rule min_list_Min)
  note c = create_inconsistent_iff [OF p ne, of uid now name idx]
  have iff: "(\<exists>m. create_voice_profile uid now es name idx = Inl (InconsistentVoiceSamples m))
         \<longleftrightarrow> Min (set ?sims) < 70 / 100"
    using lookup_phrases_not_inconsistent [of idx]
    by (auto simp add: c mn split: sum.splits)
  have fails: "create_voice_profile uid now es name idx = Inl (InconsistentVoiceSamples (Min (set ?sims)))"
    if "Min (set ?sims) < 70 / 100"
    using that by (simp add: c mn)
  have reg: "register_voice lower extractor uid now io name (Some idx) audios reg
              = (RegistrationFailed (InconsistentVoiceSamples (Min (set ?sims))), reg)"
    if "Min (set ?sims) < 70 / 100" "valid_request idx audios" "\<not> name_taken lower name reg"
       "extract_all extractor audios = Inr es"
    using that fails by (simp add: register_valid_request)
  show ?thesis
    using p length_pair_cosines_div [of es] set_pair_cosines [of es] iff fails reg
    by (intro exI [of _ ?sims]) simp
qed

theorem create_voice_profile_inconsistent_witness:
  "2 \<le> length one_outlier \<and> list_all (\<lambda>e. length e = 2) one_outlier \<and>
   valid_request [0, 1, 2, 3, 4] [0, 1, 2, 3, 4 :: nat] \<and> \<not> name_taken ascii_lower ''Bob'' only_alice \<and>
   extract_all outlier_first [0, 1, 2, 3, 4] = Inr one_outlier \<and>
   create_voice_profile ''u2'' 0 one_outlier ''Bob'' [0, 1, 2, 3, 4] = Inl (InconsistentVoiceSamples 0) \<and>
   register_voice ascii_lower outlier_first ''u2'' 0 WriteCompletes ''Bob'' (Some [0, 1, 2, 3, 4]) [0, 1, 2, 3, 4] only_alice
     = (RegistrationFailed (InconsistentVoiceSamples 0), only_alice)"
proof -
  have h1: "2 \<le> length one_outlier" by (simp add: one_outlier_def)
  have h2: "(0::nat) < 2" by simp
  have h3: "\<forall>e\<in>set one_outlier. length e = 2" by (simp add: one_outlier_def)
  from create_voice_profile_inconsistent [OF h1 h2 h3, of "''u2''" "0" "''Bob''" "[0, 1, 2, 3, 4]" "[0, 1, 2, 3, 4]" ascii_lower only_alice
      outlier_first WriteCompletes]
  obtain sims where s: "pairwise_similarities one_outlier = Inr sims"
    and f: "Min (set sims) < 70 / 100 \<longrightarrow>
         create_voice_profile ''u2'' 0 one_outlier ''Bob'' [0, 1, 2, 3, 4]
           = Inl (InconsistentVoiceSamples (Min (set sims))) \<and>
         (valid_request [0, 1, 2, 3, 4] [0, 1, 2, 3, 4 :: nat] \<and> \<not> name_taken ascii_lower ''Bob'' only_alice \<and>
            extract_all outlier_first [0, 1, 2, 3, 4] = Inr one_outlier \<longrightarrow>
            register_voice ascii_lower outlier_first ''u2'' 0 WriteCompletes ''Bob'' (Some [0, 1, 2, 3, 4])
              [0, 1, 2, 3, 4] only_alice
              = (RegistrationFailed (InconsistentVoiceSamples (Min (set sims))), only_alice))"
    by blast
  from s have sims: "sims = [0, 0, 0, 0, 1, 1, 1, 1, 1, 1]"
    by (simp add: pairwise_one_outlier)
  have m: "Min (set sims) = 0"
    by (simp add: sims)
  from f m h1 h3 valid_request_nat name_taken_only_alice(2) extract_one_outlier
  show ?thesis by (simp add: list_all_iff)
qed

text \<open>
  C2. For a probe and a non-empty list of loaded profiles it can be compared with, the
  matcher gives every profile the score
  \<open>max (cosine probe centroid) (max of the cosines to the phrase embeddings)\<close>, and
  the ranking holds one entry for every loaded profile, sorted by descending score;
  entries of equal score keep the order of the directory listing.
\<close>

theorem identify_speaker_scores_and_ranking:
  assumes "fst (load_all_profiles reg) = ps" and "ps \<noteq> []" and "\<forall>p\<in>set ps. comparable t p"
  shows "(\<forall>p\<in>set ps. \<exists>e. score_profile t p = Inr e \<and> score e = spec_score t p \<and>
            se_user_id e = user_id p \<and> se_user_name e = user_name p) \<and>
     (\<exists>m b r. identify_speaker t th reg = Inr (m, b, Scores r) \<and>
        length r = length ps \<and>
        mset r = mset (map (entry_of t) ps) \<and>
        sorted_wrt (\<lambda>a b. score b \<le> score a) r \<and>
        (\<forall>k. filter (\<lambda>e. score e = k) r = filter (\<lambda>e. score e = k) (map (entry_of t) ps)))"
proof -
  have 1: "\<forall>p\<in>set ps. \<exists>e. score_profile t p = Inr e \<and> score e = spec_score t p \<and>
            se_user_id e = user_id p \<and> se_user_name e = user_name p"
    using assms(3) by (simp add: score_profile_ok) (simp add: entry_of_def)
  let ?r = "sort_scores (map (entry_of t) ps)"
  have "length ?r = length ps" by (simp add: sort_scores_def)
  moreover have "mset ?r = mset (map (entry_of t) ps)" by (rule mset_sort_scores)
  moreover have "sorted_wrt (\<lambda>a b. score b \<le> score a) ?r" by (rule sorted_sort_scores)
  moreover have "\<forall>k. filter (\<lambda>e. score e = k) ?r = filter (\<lambda>e. score e = k) (map (entry_of t) ps)"
    by (simp add: stable_sort_scores)
  ultimately show ?thesis
    using 1 identify_speaker_ok [OF assms, of th] by blast
qed

theorem identify_speaker_scores_and_ranking_witness:
  "fst (load_all_profiles three_voices) = [bob_profile, carol_profile, dave_profile] \<and>
   list_all (comparable [1, 0]) [bob_profile, carol_profile, dave_profile] \<and>
   identify_speaker [1, 0] IDENTIFICATION_THRESHOLD three_voices =
     Inr (Some dave_profile, 1,
       Scores [entry_of [1, 0] dave_profile, entry_of [1, 0] carol_profile,
          entry_of [1, 0] bob_profile]) \<and>
   map score [entry_of [1, 0] dave_profile, entry_of [1, 0] carol_profile,
          entry_of [1, 0] bob_profile] = [1, 3 / 5, 0]"
proof -
  have h2: "[bob_profile, carol_profile, dave_profile] \<noteq> []" by simp
  have h3: "\<forall>p\<in>set [bob_profile, carol_profile, dave_profile]. comparable [1, 0] p"
    by (simp add: comparable_ex)
  from identify_speaker_scores_and_ranking [OF load_three h2 h3, of IDENTIFICATION_THRESHOLD] identify_three load_three comparable_ex
  show ?thesis by (simp add: scores_ex)
qed

text \<open>
  C3, as stated, fails: \<open>best_score\<close> starts at \<open>0.0\<close> and is replaced only by a
  larger score, so when every score is negative the returned best score is \<open>0.0\<close>,
  not the maximum of the scores. Here the only profile scores \<open>-1\<close> and the answer
  reports the best score \<open>0\<close>.
\<close>

theorem best_score_is_maximum_counterexample:
  "identify_voice (\<lambda>a. Inr [1, 0]) () opposite_voice
     = NotIdentified 0 (Scores [entry_of [1, 0] erin_profile]) \<and>
   score (entry_of [1, 0] erin_profile) = - 1 \<and>
   Max (spec_score [1, 0] ` set (fst (load_all_profiles opposite_voice))) = - 1"
  by (simp add: identify_voice_def identify_opposite load_opposite scores_ex)

text \<open>
  C3, amended. Against a non-empty list of loaded profiles the answer is
  \<open>identified\<close>, with the first profile of the largest score and that score, exactly
  when the largest score is at least 0.82, and the ranking is cut to its first 5
  entries; otherwise the answer is not identified, the reported best score is the
  larger of \<open>0\<close> and the largest score, and the ranking is cut to its first 3 entries.
  With no profile loaded \<open>identify_speaker\<close> returns the message
  \<open>No profiles in registry\<close> and no error, and \<open>identify_voice\<close> answers not
  identified with best score \<open>0\<close>.
\<close>

theorem identify_voice_decision:
  "(fst (load_all_profiles reg) = [] \<longrightarrow>
      identify_speaker t IDENTIFICATION_THRESHOLD reg
        = Inr (None, 0, Message ''No profiles in registry'') \<and>
      (extractor a = Inr t \<longrightarrow>
         identify_voice extractor a reg = NotIdentified 0 (Message ''No ''))) \<and>
   (extractor a = Inr t \<and> fst (load_all_profiles reg) = ps \<and> ps \<noteq> [] \<and>
      (\<forall>p\<in>set ps. comparable t p) \<longrightarrow>
      (IDENTIFICATION_THRESHOLD \<le> best_of t ps \<longrightarrow>
         (\<exists>p. find (\<lambda>p. spec_score t p = best_of t ps) ps = Some p \<and>
            identify_voice extractor a reg =
              Identified (user_id p) (user_name p) (best_of t ps) (enrollment_timestamp p)
                (Scores (take 5 (sort_scores (map (entry_of t) ps)))))) \<and>
      (best_of t ps < IDENTIFICATION_THRESHOLD \<longrightarrow>
         identify_voice extractor a reg =
           NotIdentified (max 0 (best_of t ps))
             (Scores (take 3 (sort_scores (map (entry_of t) ps))))))"
  using identify_voice_nonempty [of extractor a t reg ps] identify_voice_empty [of extractor a t reg]
    identify_speaker_empty [of reg t IDENTIFICATION_THRESHOLD]
  by blast

theorem identify_voice_decision_witness:
  "identify_voice (\<lambda>a. Inr [1, 0]) () [] = NotIdentified 0 (Message ''No '') \<and>
   list_all (comparable [1, 0]) [bob_profile, carol_profile, dave_profile] \<and>
   IDENTIFICATION_THRESHOLD \<le> best_of [1, 0] [bob_profile, carol_profile, dave_profile] \<and>
   identify_voice (\<lambda>a. Inr [1, 0]) () three_voices =
     Identified ''u4'' ''Dave'' 1 0
       (Scores [entry_of [1, 0] dave_profile, entry_of [1, 0] carol_profile,
          entry_of [1, 0] bob_profile]) \<and>
   best_of [1, 0] [bob_profile, carol_profile] < IDENTIFICATION_THRESHOLD \<and>
   identify_voice (\<lambda>a. Inr [1, 0]) () two_voices =
     NotIdentified (3 / 5) (Scores [entry_of [1, 0] carol_profile, entry_of [1, 0] bob_profile])"
proof -
  have e: "fst (load_all_profiles []) = []" by simp
  have f: "find (\<lambda>p. spec_score [1, 0] p = 1) [bob_profile, carol_profile, dave_profile]
      = Some dave_profile"
    by (simp add: scores_ex)
  have d: "user_id dave_profile = ''u4''" "user_name dave_profile = ''Dave''"
    "enrollment_timestamp dave_profile = 0"
    by (simp_all add: dave_profile_def mk_profile_def)
  from identify_voice_decision [of "[]" "[1, 0]" "\<lambda>a. Inr [1, 0]" "()" "[]"]
    identify_voice_decision [of three_voices "[1, 0]" "\<lambda>a. Inr [1, 0]" "()" "[bob_profile, carol_profile, dave_profile]"]
    identify_voice_decision [of two_voices "[1, 0]" "\<lambda>a. Inr [1, 0]" "()" "[bob_profile, carol_profile]"]
    e f d load_three load_two comparable_ex best_three best_two sort_three sort_two
  show ?thesis
    by (simp add: IDENTIFICATION_THRESHOLD_def)
qed

text \<open>
  C4. For a batch of at least two embeddings of one dimension that
  \<open>create_voice_profile\<close> accepts, the centroid of the profile is the element-wise
  arithmetic mean of the embeddings divided by its L2 norm, and it is a unit vector of
  that dimension; a batch whose pairwise similarities are all at least 0.70, with phrase
  indices of the catalogue, is accepted. When all embeddings are one unit vector, the
  profile is created with \<open>min_consistency = consistency_score = 1\<close> and that vector as
  its centroid.
\<close>

theorem create_voice_profile_centroid:
  "(2 \<le> length es \<and> 0 < d \<and> (\<forall>e\<in>set es. length e = d) \<longrightarrow>
      (create_voice_profile uid now es name idx = Inr p \<longrightarrow>
         voice_embedding p = spec_centroid es \<and> length (voice_embedding p) = d \<and>
         l2_norm (voice_embedding p) = 1) \<and>
      ((\<forall>i j. i < j \<and> j < length es \<longrightarrow> 70 / 100 \<le> cosine (es ! i) (es ! j)) \<and>
         valid_indices idx \<longrightarrow>
         (\<exists>q. create_voice_profile uid now es name idx = Inr q))) \<and>
   (2 \<le> n \<and> l2_norm v = 1 \<and> valid_indices idx \<longrightarrow>
      (\<exists>q. create_voice_profile uid now (replicate n v) name idx = Inr q \<and>
         min_consistency q = 1 \<and> consistency_score q = 1 \<and> voice_embedding q = v))"
  using create_centroid(1,2,3) [of es d uid now name idx p]
    create_total [of es d idx uid now name]
    create_identical [of n v idx uid now name]
  by blast

theorem create_voice_profile_centroid_witness:
  "2 \<le> length near_pair \<and> list_all (\<lambda>e. length e = 2) near_pair \<and>
   list_all (\<lambda>c. 70 / 100 \<le> c) (pair_cosines near_pair) \<and> valid_indices [0, 1] \<and>
   (case create_voice_profile ''u6'' 0 near_pair ''Frank'' [0, 1] of
      Inr p \<Rightarrow> voice_embedding p = spec_centroid near_pair \<and> l2_norm (voice_embedding p) = 1
    | Inl e \<Rightarrow> False) \<and>
   l2_norm [1, 0] = 1 \<and>
   (case create_voice_profile ''u6'' 0 (replicate 2 [1, 0]) ''Frank'' [0, 1] of
      Inr p \<Rightarrow> min_consistency p = 1 \<and> consistency_score p = 1 \<and> voice_embedding p = [1, 0]
    | Inl e \<Rightarrow> False)"
proof -
  have h: "2 \<le> length near_pair \<and> 0 < (2::nat) \<and> (\<forall>e\<in>set near_pair. length e = 2)"
    by (simp add: near_pair_def)
  have h4: "\<forall>i j. i < j \<and> j < length near_pair \<longrightarrow>
      70 / 100 \<le> cosine (near_pair ! i) (near_pair ! j)"
    by (simp only: all_pairs_iff near_pair_cosines) simp
  have u: "(2::nat) \<le> 2 \<and> l2_norm [1, 0] = 1 \<and> valid_indices [0, 1]"
    by (simp add: unit_ex valid_indices_ex(1))
  from create_voice_profile_centroid [of near_pair 2 "''u6''" "0" "''Frank''" "[0, 1]" alice_profile 2 "[1, 0]"]
    h h4 valid_indices_ex(1)
  obtain q where q: "create_voice_profile ''u6'' 0 near_pair ''Frank'' [0, 1] = Inr q"
    by blast
  from create_voice_profile_centroid [of near_pair 2 "''u6''" "0" "''Frank''" "[0, 1]" q 2 "[1, 0]"] h q
  have a: "voice_embedding q = spec_centroid near_pair" "l2_norm (voice_embedding q) = 1"
    by blast+
  from create_voice_profile_centroid [of near_pair 2 "''u6''" "0" "''Frank''" "[0, 1]" q 2 "[1, 0]"] u
  obtain r where r: "create_voice_profile ''u6'' 0 (replicate 2 [1, 0]) ''Frank'' [0, 1] = Inr r"
    "min_consistency r = 1" "consistency_score r = 1" "voice_embedding r = [1, 0]"
    by blast
  have n: "2 \<le> length near_pair" "list_all (\<lambda>e. length e = 2) near_pair"
    "list_all (\<lambda>c. 70 / 100 \<le> c) (pair_cosines near_pair)"
    by (simp_all add: near_pair_cosines) (simp_all add: near_pair_def)
  from a have a2: "l2_norm (spec_centroid near_pair) = 1" by simp
  show ?thesis
    by (simp only: q r a a2 n unit_ex valid_indices_ex(1) sum.case simp_thms)
qed

text \<open>
  C5, as stated, fails: \<open>register_voice\<close> checks the request (lines 246 to 280)
  before it looks at the names (line 284), so a call with a stored name and a phrase
  index outside the catalogue is answered with the error of the index check, not with
  the duplicate-name error. Nothing is persisted either way.
\<close>

theorem duplicate_name_behind_input_checks_counterexample:
  "name_taken ascii_lower ''alice'' only_alice \<and>
   register_voice ascii_lower (\<lambda>a. Inr [1, 0]) ''u2'' 0 WriteCompletes ''alice''
      (Some [0, 1, 2, 15, - 1]) [(), (), (), (), ()] only_alice
     = (InvalidPhraseIndices [15, - 1], only_alice)"
proof -
  have "register_voice ascii_lower (\<lambda>a. Inr [1, 0]) ''u2'' 0 WriteCompletes ''alice''
      (Some [0, 1, 2, 15, - 1]) [(), (), (), (), ()] only_alice
     = (InvalidPhraseIndices [15, - 1], only_alice)"
    unfolding register_invalid_request [OF five_with_bad_indices(1)] five_with_bad_indices(2)
    by (simp add: REQUIRED_PHRASES_def)
  with name_taken_only_alice(1) show ?thesis by simp
qed

text \<open>
  C5, amended. An enrollment call whose \<open>user_name\<close> equals, case-insensitively, the
  name of a stored profile fails and persists nothing. Its failure is the duplicate-name
  error when the request passes the input checks that \<open>register_voice\<close> makes first
  (parsed phrase indices, as many uploads as indices, at least five of them, every index
  in the catalogue), and the error of the first failed check otherwise. When no stored
  name collides, the call never fails with the duplicate-name error.
\<close>

theorem register_voice_duplicate_name:
  "(name_taken lower name reg \<longrightarrow>
      snd (register_voice lower extractor uid now io name parsed audios reg) = reg \<and>
      (\<forall>a b c d. fst (register_voice lower extractor uid now io name parsed audios reg)
         \<noteq> Registered a b c d) \<and>
      (parsed = None \<longrightarrow>
         register_voice lower extractor uid now io name parsed audios reg
           = (InvalidIndicesFormat, reg)) \<and>
      (\<forall>idx. parsed = Some idx \<and> \<not> valid_request idx audios \<longrightarrow>
         register_voice lower extractor uid now io name parsed audios reg
           = (if length audios \<noteq> length idx then CountMismatch (length audios) (length idx)
              else if length audios < REQUIRED_PHRASES then TooFewRecordings
              else InvalidPhraseIndices
                     (filter (\<lambda>i. i < 0 \<or> i \<ge> int (length ENROLLMENT_PHRASES)) idx), reg)) \<and>
      (\<forall>idx. parsed = Some idx \<and> valid_request idx audios \<longrightarrow>
         register_voice lower extractor uid now io name parsed audios reg
           = (AlreadyRegistered name, reg))) \<and>
   (\<not> name_taken lower name reg \<longrightarrow>
      (\<forall>n. fst (register_voice lower extractor uid now io name parsed audios reg)
         \<noteq> AlreadyRegistered n))"
  using register_duplicate [of lower name reg extractor uid now io parsed audios]
    register_no_duplicate [of lower name reg extractor uid now io parsed audios]
  by (auto simp add: register_valid_request register_invalid_request register_unparsed)

theorem register_voice_duplicate_name_witness:
  "name_taken ascii_lower ''alice'' only_alice \<and>
   valid_request [0, 1, 2, 3, 4] [(), (), (), (), ()] \<and>
   register_voice ascii_lower (\<lambda>a. Inr [1, 0]) ''u2'' 0 WriteCompletes ''alice'' (Some [0, 1, 2, 3, 4])
      [(), (), (), (), ()] only_alice = (AlreadyRegistered ''alice'', only_alice) \<and>
   \<not> name_taken ascii_lower ''Bob'' only_alice \<and>
   fst (register_voice ascii_lower (\<lambda>a. Inr [1, 0]) ''u2'' 0 WriteCompletes ''Bob'' (Some [0, 1, 2, 3, 4])
      [(), (), (), (), ()] only_alice) \<noteq> AlreadyRegistered ''Bob''"
  using register_voice_duplicate_name [of ascii_lower "''alice''" only_alice "\<lambda>a. Inr [1, 0]" "''u2''" "0"
      WriteCompletes "Some [0, 1, 2, 3, 4]" "[(), (), (), (), ()]"]
    register_voice_duplicate_name [of ascii_lower "''Bob''" only_alice "\<lambda>a. Inr [1, 0]" "''u2''" "0"
      WriteCompletes "Some [0, 1, 2, 3, 4]" "[(), (), (), (), ()]"]
    name_taken_only_alice valid_request_five
  by simp




text \<open>
  C7, as stated, fails: \<open>create_voice_profile\<close> stores the phrase embeddings as it
  receives them (line 120) and normalizes only the centroid. Five embeddings \<open>[2, 0]\<close>
  are accepted, their pairwise cosines being 1, and each is stored with norm 2.
\<close>

theorem phrase_embedding_norm_counterexample:
  "create_voice_profile ''u6'' 0 loud_batch ''Frank'' [0, 1, 2, 3, 4] = Inr frank_profile \<and>
   phrase_embeddings frank_profile = loud_batch \<and>
   map l2_norm (phrase_embeddings frank_profile) = [2, 2, 2, 2, 2] \<and>
   snd (register_voice ascii_lower loud ''u6'' 0 WriteCompletes ''Frank'' (Some [0, 1, 2, 3, 4])
      [0, 1, 2, 3, 4] []) = [(''u6.json'', Doc frank_profile)]"
proof -
  have p: "phrase_embeddings frank_profile = loud_batch"
    by (simp add: frank_profile_def)
  have m: "map l2_norm loud_batch = [2, 2, 2, 2, 2]"
    by (simp add: loud_batch_def loud_norm)
  from create_frank p m register_frank [of WriteCompletes] show ?thesis by simp
qed

text \<open>
  C7, amended. For a batch of at least two embeddings of one dimension that
  \<open>create_voice_profile\<close> accepts, the centroid of the profile has unit L2 norm, and
  the phrase embeddings of the profile are the embeddings of the batch, unchanged: they
  all have unit norm exactly when the inputs have. \<open>register_voice\<close> persists that
  profile as it is.
\<close>

theorem stored_vectors_unit_norm:
  "2 \<le> length es \<and> 0 < d \<and> (\<forall>e\<in>set es. length e = d) \<and>
   create_voice_profile uid now es name idx = Inr p \<longrightarrow>
     l2_norm (voice_embedding p) = 1 \<and>
     phrase_embeddings p = es \<and>
     ((\<forall>e\<in>set (phrase_embeddings p). l2_norm e = 1) \<longleftrightarrow> (\<forall>e\<in>set es. l2_norm e = 1)) \<and>
     (valid_request idx audios \<and> \<not> name_taken lower name reg \<and>
      extract_all extractor audios = Inr es \<longrightarrow>
        register_voice lower extractor uid now WriteCompletes name (Some idx) audios reg =
          (Registered (user_id p) (user_name p) (length es) (consistency_score p),
           write_file (profile_path (user_id p)) (Doc p) reg))"
  using create_centroid(3,4) [of es d uid now name idx p]
    register_completes [of idx audios lower name reg extractor es uid now p]
  by auto

theorem stored_vectors_unit_norm_witness:
  "2 \<le> length near_pair \<and> list_all (\<lambda>e. length e = 2) near_pair \<and>
   (case create_voice_profile ''u6'' 0 near_pair ''Frank'' [0, 1] of
      Inr p \<Rightarrow> l2_norm (voice_embedding p) = 1 \<and> phrase_embeddings p = near_pair
    | Inl e \<Rightarrow> False)"
proof -
  have h1: "2 \<le> length near_pair" by (simp add: near_pair_def)
  have h3: "\<forall>e\<in>set near_pair. length e = 2" by (simp add: near_pair_def)
  have h4: "\<forall>i j. i < j \<and> j < length near_pair \<longrightarrow>
      70 / 100 \<le> cosine (near_pair ! i) (near_pair ! j)"
    by (simp only: all_pairs_iff near_pair_cosines) simp
  from create_total [OF h1 _ h3 h4 valid_indices_ex(1), of "''u6''" "0" "''Frank''"]
  obtain q where q: "create_voice_profile ''u6'' 0 near_pair ''Frank'' [0, 1] = Inr q"
    by auto
  from stored_vectors_unit_norm [of near_pair 2 "''u6''" "0" "''Frank''" "[0, 1]" q "[]" ascii_lower "[]" "\<lambda>a. Inr []"] h1 h3 q
  have "l2_norm (voice_embedding q) = 1 \<and> phrase_embeddings q = near_pair"
    by auto
  with h1 h3 q show ?thesis by (simp add: list_all_iff)
qed

text \<open>
  C8. Deleting a \<open>user_id\<close> that has no file in the registry fails with \<open>NotFound\<close> and
  changes nothing. Deleting an existing profile removes its entry and no other; after
  that a \<open>get\<close> of the same \<open>user_id\<close> fails with \<open>NotFound\<close>, and so does a second
  delete: deletion is not idempotent.
\<close>

theorem delete_voice_not_found:
  "(\<not> path_exists reg (profile_path uid) \<longrightarrow> delete_voice uid reg = (NotFound, reg)) \<and>
   (map_of reg (profile_path uid) = Some (Doc p) \<longrightarrow>
      delete_voice uid reg = (Deleted (user_name p), remove_file (profile_path uid) reg) \<and>
      map_of (remove_file (profile_path uid) reg) = (map_of reg)(profile_path uid := None) \<and>
      get_profile uid (remove_file (profile_path uid) reg) = Inl GetNotFound \<and>
      delete_voice uid (remove_file (profile_path uid) reg) =
        (NotFound, remove_file (profile_path uid) reg))"
  by (simp add: delete_absent delete_doc map_of_remove_file not_exists_remove get_profile_def)

theorem delete_voice_not_found_witness:
  "delete_voice ''u7'' only_alice = (NotFound, only_alice) \<and>
   delete_voice ''u1'' only_alice = (Deleted ''Alice'', []) \<and>
   get_profile ''u1'' [] = Inl GetNotFound \<and>
   delete_voice ''u1'' [] = (NotFound, [])"
proof -
  have a: "\<not> path_exists only_alice (profile_path ''u7'')"
    by (simp add: only_alice_def profile_path_def path_exists_def)
  have b: "map_of only_alice (profile_path ''u1'') = Some (Doc alice_profile)"
    by (simp add: only_alice_def profile_path_def)
  have c: "remove_file (profile_path ''u1'') only_alice = []"
    by (simp add: only_alice_def profile_path_def remove_file_def AList.delete_eq)
  have d: "user_name alice_profile = ''Alice''"
    by (simp add: alice_profile_def)
  from delete_voice_not_found [of only_alice "''u7''"]
    delete_voice_not_found [of only_alice "''u1''" alice_profile] a b c d
  show ?thesis by simp
qed

text \<open>
  C9. \<open>load_all_profiles\<close> returns every profile whose \<open>.json\<close> file can be read, in
  the order of the directory listing, and prints one line for each \<open>.json\<close> file that
  cannot, instead of failing. The unreadable files do not change what is returned, and
  \<open>identify_speaker\<close> scores and ranks exactly the profiles returned: with none it
  returns the message \<open>No profiles in registry\<close>; otherwise its best score is the
  larger of \<open>0\<close> and their largest score, its match the first profile of that score
  when it is positive and reaches the threshold, and its ranking holds their entries
  sorted by descending score.
\<close>

theorem load_all_profiles_skips_unreadable:
  "fst (load_all_profiles reg) =
     concat (map (\<lambda>fc. case snd fc of Doc p \<Rightarrow> [p] | Unreadable \<Rightarrow> [])
       (filter (\<lambda>fc. endswith (fst fc) ''.json'') reg)) \<and>
   snd (load_all_profiles reg) =
     map fst (filter (\<lambda>fc. endswith (fst fc) ''.json'' \<and> snd fc = Unreadable) reg) \<and>
   load_all_profiles (filter (\<lambda>fc. snd fc \<noteq> Unreadable) reg) = (fst (load_all_profiles reg), []) \<and>
   identify_speaker t th (filter (\<lambda>fc. snd fc \<noteq> Unreadable) reg) = identify_speaker t th reg \<and>
   (fst (load_all_profiles reg) = [] \<longrightarrow>
      identify_speaker t th reg = Inr (None, 0, Message ''No profiles in registry'')) \<and>
   (fst (load_all_profiles reg) = ps \<and> ps \<noteq> [] \<and> (\<forall>p\<in>set ps. comparable t p) \<longrightarrow>
      identify_speaker t th reg =
        Inr (if th \<le> max 0 (best_of t ps) \<and> 0 < best_of t ps
             then find (\<lambda>p. spec_score t p = best_of t ps) ps else None,
             max 0 (best_of t ps),
             Scores (sort_scores (map (entry_of t) ps))))"
  using identify_speaker_ok [of reg ps t th] identify_speaker_empty [of reg t th]
  by (simp add: load_fst [symmetric] load_snd [symmetric] load_filter identify_filter)

theorem load_all_profiles_skips_unreadable_witness:
  "load_all_profiles alice_and_damaged = ([alice_profile], [''u0.json'']) \<and>
   comparable [1, 0] alice_profile \<and>
   identify_speaker [1, 0] IDENTIFICATION_THRESHOLD alice_and_damaged =
     Inr (Some alice_profile, 1, Scores [entry_of [1, 0] alice_profile]) \<and>
   score (entry_of [1, 0] alice_profile) = 1"
proof -
  have b: "best_of [1, 0] [alice_profile] = 1"
    by (simp add: best_of_def alice_scores)
  have s: "sort_scores [entry_of [1, 0] alice_profile] = [entry_of [1, 0] alice_profile]"
    by (simp add: sort_scores_def)
  have h: "fst (load_all_profiles alice_and_damaged) = [alice_profile] \<and> [alice_profile] \<noteq> [] \<and>
      (\<forall>p\<in>set [alice_profile]. comparable [1, 0] p)"
    by (simp add: load_damaged alice_scores)
  from load_all_profiles_skips_unreadable [of alice_and_damaged "[1, 0]" IDENTIFICATION_THRESHOLD "[alice_profile]"] h
  have "identify_speaker [1, 0] IDENTIFICATION_THRESHOLD alice_and_damaged =
      Inr (if IDENTIFICATION_THRESHOLD \<le> max 0 (best_of [1, 0] [alice_profile]) \<and>
              0 < best_of [1, 0] [alice_profile]
           then find (\<lambda>p. spec_score [1, 0] p = best_of [1, 0] [alice_profile]) [alice_profile]
           else None,
           max 0 (best_of [1, 0] [alice_profile]),
           Scores (sort_scores (map (entry_of [1, 0]) [alice_profile])))"
    by blast
  then have "identify_speaker [1, 0] IDENTIFICATION_THRESHOLD alice_and_damaged =
      Inr (Some alice_profile, 1, Scores [entry_of [1, 0] alice_profile])"
    by (simp add: b s alice_scores IDENTIFICATION_THRESHOLD_def)
  with load_damaged alice_scores show ?thesis by simp
qed

text \<open>
  C10. When the file of a \<open>user_id\<close> exists and cannot be parsed, \<open>delete_voice\<close> fails
  with the generic failure of its \<open>except\<close> branch, not with \<open>NotFound\<close>, and the file
  stays: the record is read and parsed before \<open>os.remove\<close> is reached.
\<close>

theorem delete_voice_unreadable_record:
  assumes "map_of reg (profile_path uid) = Some Unreadable"
  shows "delete_voice uid reg = (DeleteFailed, reg) \<and>
         fst (delete_voice uid reg) \<noteq> NotFound \<and>
         map_of (snd (delete_voice uid reg)) (profile_path uid) = Some Unreadable"
  using assms by (simp add: delete_unreadable)

theorem delete_voice_unreadable_record_witness:
  "map_of alice_and_damaged (profile_path ''u0'') = Some Unreadable \<and>
   delete_voice ''u0'' alice_and_damaged = (DeleteFailed, alice_and_damaged)"
proof -
  have h: "map_of alice_and_damaged (profile_path ''u0'') = Some Unreadable"
    by (simp add: alice_and_damaged_def profile_path_def)
  from delete_voice_unreadable_record [OF h] h show ?thesis by simp
qed

end
